theory Spec2Isabelle
  imports Main "HOL-Library.Word"
begin

section \<open>JavaScript values and strings\<close>

text \<open>
  The library \<^verbatim>\<open>nq.js\<close> is a thin layer over the host's document tree. The model
  keeps the library's own code as it is written and makes the host explicit: a store of
  nodes, the primitives the library calls on them, and the errors those primitives and
  the language raise.

  Markup, the names of elements, attributes, classes and events, and attribute values
  are sequences of characters with codes 0 to 255 (the Latin-1 range of JavaScript's
  code units). The strings that reach \<^verbatim>\<open>encodeURIComponent\<close>, the \<^verbatim>\<open>name\<close> and
  \<^verbatim>\<open>value\<close> properties of form controls, are kept as the language has them, sequences
  of 16-bit code units: the encoding reads surrogate pairs and raises on a surrogate
  that belongs to no pair. Argument values that the library passes on to the host are
  \<open>jsval\<close>: \<open>JUndefined\<close> is an argument that is absent or \<^verbatim>\<open>undefined\<close>; \<open>JNum\<close>
  carries an integer in the range where \<^verbatim>\<open>Number.prototype.toString\<close> is the decimal
  expansion.
\<close>

datatype jsval = JUndefined | JNull | JBool bool | JNum int | JStr string

datatype error =
  TypeError | SyntaxError | URIError | InvalidCharacterError | NoModificationAllowedError
  | HierarchyRequestError | NotFoundError

fun natToString :: "nat \<Rightarrow> string" where
  "natToString n =
     (if n < 10 then [''0123456789'' ! n]
      else natToString (n div 10) @ [''0123456789'' ! (n mod 10)])"

definition intToString :: "int \<Rightarrow> string" where
  "intToString i = (if i < 0 then CHR ''-'' # natToString (nat (- i)) else natToString (nat i))"

text \<open>\<^verbatim>\<open>String(v)\<close>, the conversion the host applies to an attribute value.\<close>

fun ToString :: "jsval \<Rightarrow> string" where
  "ToString JUndefined = ''undefined''"
| "ToString JNull = ''null''"
| "ToString (JBool b) = (if b then ''true'' else ''false'')"
| "ToString (JNum i) = intToString i"
| "ToString (JStr s) = s"

text \<open>
  \<^verbatim>\<open>String.prototype.trim\<close> removes white space and line terminators from both ends;
  in the Latin-1 range these are TAB, LF, VT, FF, CR, SPACE and NBSP.
\<close>

definition isWhiteSpace :: "char \<Rightarrow> bool" where
  "isWhiteSpace c =
     (c \<in> set [CHR 0x09, CHR 0x0A, CHR 0x0B, CHR 0x0C, CHR 0x0D, CHR 0x20, CHR 0xA0])"

definition trim :: "string \<Rightarrow> string" where
  "trim s = rev (dropWhile isWhiteSpace (rev (dropWhile isWhiteSpace s)))"

definition startsWith :: "string \<Rightarrow> string \<Rightarrow> bool" where
  "startsWith s p = (take (length p) s = p)"

definition endsWith :: "string \<Rightarrow> string \<Rightarrow> bool" where
  "endsWith s p = (length p \<le> length s \<and> drop (length s - length p) s = p)"

definition toLowerChar :: "char \<Rightarrow> char" where
  "toLowerChar c =
     (case map_of (zip ''ABCDEFGHIJKLMNOPQRSTUVWXYZ'' ''abcdefghijklmnopqrstuvwxyz'') c of
        Some d \<Rightarrow> d | None \<Rightarrow> c)"

definition toUpperChar :: "char \<Rightarrow> char" where
  "toUpperChar c =
     (case map_of (zip ''abcdefghijklmnopqrstuvwxyz'' ''ABCDEFGHIJKLMNOPQRSTUVWXYZ'') c of
        Some d \<Rightarrow> d | None \<Rightarrow> c)"

definition toLowerCase :: "string \<Rightarrow> string" where
  "toLowerCase s = map toLowerChar s"

definition toUpperCase :: "string \<Rightarrow> string" where
  "toUpperCase s = map toUpperChar s"

text \<open>
  A JavaScript string is a sequence of 16-bit code units; \<open>jsString\<close> is the string
  whose code units are the codes of the given characters.
\<close>

type_synonym jsstring = "16 word list"

definition jsString :: "string \<Rightarrow> jsstring" where
  "jsString str = map (\<lambda>c. of_nat (of_char c)) str"

text \<open>
  \<^verbatim>\<open>encodeURIComponent\<close> walks the code units of its argument. An unreserved
  character stays. At any other code unit it reads a code point: a leading surrogate
  followed by a trailing one is the code point of the pair, a surrogate that is alone
  raises \<^verbatim>\<open>URIError\<close>, every other unit is its own code point; the code point is
  written as the percent-escaped bytes of its UTF-8 encoding.
\<close>

definition unreservedSet :: string where
  "unreservedSet =
     ''ABCDEFGHIJKLMNOPQRSTUVWXYZabcdefghijklmnopqrstuvwxyz0123456789''
       @ [CHR ''-'', CHR ''_'', CHR ''.'', CHR ''!'', CHR ''~'', CHR ''*'',
          CHR 0x27, CHR 0x28, CHR 0x29]"

definition unreserved :: "16 word \<Rightarrow> char option" where
  "unreserved c = find (\<lambda>ch. of_char ch = unat c) unreservedSet"

definition pctByte :: "nat \<Rightarrow> string" where
  "pctByte b = [CHR ''%'', ''0123456789ABCDEF'' ! (b div 16), ''0123456789ABCDEF'' ! (b mod 16)]"

definition utf8 :: "nat \<Rightarrow> nat list" where
  "utf8 cp =
     (if cp < 0x80 then [cp]
      else if cp < 0x800 then [0xC0 + cp div 0x40, 0x80 + cp mod 0x40]
      else if cp < 0x10000 then
        [0xE0 + cp div 0x1000, 0x80 + cp div 0x40 mod 0x40, 0x80 + cp mod 0x40]
      else [0xF0 + cp div 0x40000, 0x80 + cp div 0x1000 mod 0x40,
            0x80 + cp div 0x40 mod 0x40, 0x80 + cp mod 0x40])"

definition isLeadingSurrogate :: "16 word \<Rightarrow> bool" where
  "isLeadingSurrogate c = (0xD800 \<le> unat c \<and> unat c \<le> 0xDBFF)"

definition isTrailingSurrogate :: "16 word \<Rightarrow> bool" where
  "isTrailingSurrogate c = (0xDC00 \<le> unat c \<and> unat c \<le> 0xDFFF)"

definition escape :: "nat \<Rightarrow> error + string \<Rightarrow> error + string" where
  "escape cp r =
     (case r of Inl err \<Rightarrow> Inl err | Inr str \<Rightarrow> Inr (concat (map pctByte (utf8 cp)) @ str))"

fun encodeURIComponent :: "jsstring \<Rightarrow> error + string" where
  "encodeURIComponent [] = Inr []"
| "encodeURIComponent [c] =
     (case unreserved c of
        Some ch \<Rightarrow> Inr [ch]
      | None \<Rightarrow>
          if isLeadingSurrogate c \<or> isTrailingSurrogate c then Inl URIError
          else escape (unat c) (Inr []))"
| "encodeURIComponent (c # d # cs) =
     (case unreserved c of
        Some ch \<Rightarrow>
          (case encodeURIComponent (d # cs) of
             Inl err \<Rightarrow> Inl err
           | Inr str \<Rightarrow> Inr (ch # str))
      | None \<Rightarrow>
          if isTrailingSurrogate c then Inl URIError
          else if isLeadingSurrogate c then
            (if isTrailingSurrogate d
             then escape (0x10000 + (unat c - 0xD800) * 0x400 + (unat d - 0xDC00))
                    (encodeURIComponent cs)
             else Inl URIError)
          else escape (unat c) (encodeURIComponent (d # cs)))"

text \<open>
  \<^verbatim>\<open>String.prototype.isWellFormed\<close>: the string has no surrogate outside a pair.
\<close>

fun wellFormed :: "jsstring \<Rightarrow> bool" where
  "wellFormed [] = True"
| "wellFormed [c] = (\<not> isLeadingSurrogate c \<and> \<not> isTrailingSurrogate c)"
| "wellFormed (c # d # cs) =
     (if isTrailingSurrogate c then False
      else if isLeadingSurrogate c then isTrailingSurrogate d \<and> wellFormed cs
      else wellFormed (d # cs))"

text \<open>\<^verbatim>\<open>Array.prototype.join\<close> on an array of strings.\<close>

fun join :: "string \<Rightarrow> string list \<Rightarrow> string" where
  "join sep [] = []"
| "join sep [x] = x"
| "join sep (x # y # ys) = x @ sep @ join sep (y # ys)"

section \<open>The document: nodes, listeners and the store\<close>

text \<open>
  A collection (\<^verbatim>\<open>Query\<close>) has one field, the array \<open>nodes\<close> of element references.
  References are the identities of the nodes in the store.
\<close>

record query =
  nodes :: "nat list"

text \<open>
  The third argument of \<^verbatim>\<open>on\<close>, \<^verbatim>\<open>off\<close> and \<^verbatim>\<open>one\<close>: a boolean or an
  \<^verbatim>\<open>EventListenerOptions\<close> object, whose one member is \<^verbatim>\<open>capture\<close>; \<open>None\<close> is an
  omitted argument.
\<close>

datatype listener_options = OptBoolean bool | OptObject bool

text \<open>
  A listener is a function object. \<open>UserFn h\<close> is a callback of the client, known by its
  identity \<open>h\<close>. \<open>OneTimeHandler k h self opts\<close> is the closure \<^verbatim>\<open>oneTimeHandler\<close> that a
  call of \<^verbatim>\<open>one\<close> creates: \<open>k\<close> is the identity of the closure (every call creates a new
  one), and \<open>h\<close>, \<open>self\<close>, \<open>opts\<close> are the variables it captures.
\<close>

datatype listener = UserFn nat | OneTimeHandler nat nat query "listener_options option"

datatype kind = ElementNode | TextNode | DocumentNode

record node =
  kind :: kind
  localName :: string
  parentNode :: "nat option"
  childNodes :: "nat list"
  attributes :: "(string \<times> string) list"
  listeners :: "(string \<times> listener \<times> bool) list"
  data :: string

text \<open>
  The state of the page: the store of nodes, the next unused node identity, the next
  unused closure identity, the record of the calls of client callbacks (callback,
  \<^verbatim>\<open>this\<close>, event type), and the client callbacks that raise when they are called.
  A client callback is opaque: calling it is recorded, it returns or it raises, and it
  changes nothing else.
\<close>

record dom =
  store :: "nat \<Rightarrow> node"
  nextId :: nat
  nextFn :: nat
  calls :: "(nat \<times> nat \<times> string) list"
  raising :: "nat \<Rightarrow> bool"

text \<open>A parsed fragment of markup: elements with attributes and children, and text.\<close>

datatype tree = Elem string "(string \<times> string) list" "tree list" | Txt string

text \<open>
  The properties of an element that the serialisation and the constructor read
  (\<^verbatim>\<open>name\<close>, \<^verbatim>\<open>disabled\<close>, \<^verbatim>\<open>type\<close>, \<^verbatim>\<open>checked\<close>, \<^verbatim>\<open>value\<close>, \<^verbatim>\<open>options\<close>,
  \<^verbatim>\<open>selected\<close>, \<^verbatim>\<open>elements\<close>), with \<open>None\<close> for a property the element does not have
  (\<^verbatim>\<open>undefined\<close>). \<open>indexed\<close> is the element seen as an array: its \<^verbatim>\<open>length\<close> and
  indexed members, which a select and a form have and other elements do not.
\<close>

record props =
  name :: "jsstring option"
  disabled :: "bool option"
  typeProp :: "string option"
  checked :: "bool option"
  valueProp :: "jsstring option"
  options :: "nat list option"
  selected :: "bool option"
  elements :: "nat list"
  indexed :: "nat list option"

text \<open>
  What the library takes from the host without fixing it: the selector engine, the
  markup parser (by the local name of the context element), the serialisers behind the
  getters of \<^verbatim>\<open>innerHTML\<close> and \<^verbatim>\<open>innerText\<close>, the host's rules for element and
  attribute names, and the reflected properties of an element.
\<close>

record host =
  querySelectorAll :: "dom \<Rightarrow> string \<Rightarrow> error + nat list"
  parseFragment :: "string \<Rightarrow> string \<Rightarrow> tree list"
  getInnerHTML :: "dom \<Rightarrow> nat \<Rightarrow> string"
  getInnerText :: "dom \<Rightarrow> nat \<Rightarrow> string"
  validElementName :: "string \<Rightarrow> bool"
  validAttributeName :: "string \<Rightarrow> bool"
  props :: "dom \<Rightarrow> nat \<Rightarrow> props"

type_synonym 'a result = "(error + 'a) \<times> dom"

definition andThen :: "'a result \<Rightarrow> ('a \<Rightarrow> dom \<Rightarrow> 'b result) \<Rightarrow> 'b result" where
  "andThen r f = (case r of (Inl e, s) \<Rightarrow> (Inl e, s) | (Inr x, s) \<Rightarrow> f x s)"

definition updNode :: "nat \<Rightarrow> (node \<Rightarrow> node) \<Rightarrow> dom \<Rightarrow> dom" where
  "updNode n f s = s\<lparr>store := (store s)(n := f (store s n))\<rparr>"

definition newNode :: "kind \<Rightarrow> string \<Rightarrow> (string \<times> string) list \<Rightarrow> string \<Rightarrow> node" where
  "newNode k nm as d =
     \<lparr>kind = k, localName = nm, parentNode = None, childNodes = [], attributes = as,
      listeners = [], data = d\<rparr>"

definition tagName :: "node \<Rightarrow> string" where
  "tagName nd = toUpperCase (localName nd)"

subsection \<open>Attributes\<close>

fun setAttr :: "string \<Rightarrow> string \<Rightarrow> (string \<times> string) list \<Rightarrow> (string \<times> string) list" where
  "setAttr k v [] = [(k, v)]"
| "setAttr k v ((k', v') # as) = (if k' = k then (k, v) # as else (k', v') # setAttr k v as)"

text \<open>
  \<^verbatim>\<open>setAttribute\<close> raises on a name the host does not accept, lower-cases the name (an
  HTML element in an HTML document) and stores the value converted to a string.
  \<^verbatim>\<open>getAttribute\<close> lower-cases the name and returns the value or null.
\<close>

definition setAttribute :: "host \<Rightarrow> nat \<Rightarrow> string \<Rightarrow> jsval \<Rightarrow> dom \<Rightarrow> unit result" where
  "setAttribute H n qn v s =
     (if \<not> validAttributeName H qn then (Inl InvalidCharacterError, s)
      else (Inr (), updNode n (\<lambda>nd. nd\<lparr>attributes :=
              setAttr (toLowerCase qn) (ToString v) (attributes nd)\<rparr>) s))"

definition getAttribute :: "nat \<Rightarrow> string \<Rightarrow> dom \<Rightarrow> string option" where
  "getAttribute n qn s = map_of (attributes (store s n)) (toLowerCase qn)"

subsection \<open>The class list\<close>

text \<open>
  \<^verbatim>\<open>classList\<close> is the token set of the \<^verbatim>\<open>class\<close> attribute: the attribute's value split
  on ASCII white space, without repetitions, in order of first occurrence. Its methods
  raise on an empty token and on a token with white space, and write the changed set
  back to the attribute.
\<close>

definition isAsciiWhitespace :: "char \<Rightarrow> bool" where
  "isAsciiWhitespace c = (c \<in> set [CHR 0x09, CHR 0x0A, CHR 0x0C, CHR 0x0D, CHR 0x20])"

fun tokens :: "string \<Rightarrow> string \<Rightarrow> string list" where
  "tokens acc [] = (if acc = [] then [] else [acc])"
| "tokens acc (c # cs) =
     (if isAsciiWhitespace c then (if acc = [] then [] else [acc]) @ tokens [] cs
      else tokens (acc @ [c]) cs)"

definition orderedSet :: "string list \<Rightarrow> string list" where
  "orderedSet xs = rev (remdups (rev xs))"

definition classTokens :: "node \<Rightarrow> string list" where
  "classTokens nd =
     orderedSet (tokens [] (case map_of (attributes nd) ''class'' of None \<Rightarrow> [] | Some v \<Rightarrow> v))"

definition updateClass :: "string list \<Rightarrow> node \<Rightarrow> node" where
  "updateClass ts nd =
     (if map_of (attributes nd) ''class'' = None \<and> ts = [] then nd
      else nd\<lparr>attributes := setAttr ''class'' (join '' '' ts) (attributes nd)\<rparr>)"

definition validateToken :: "string \<Rightarrow> error option" where
  "validateToken t =
     (if t = [] then Some SyntaxError
      else if list_ex isAsciiWhitespace t then Some InvalidCharacterError
      else None)"

definition classList_add :: "string \<Rightarrow> nat \<Rightarrow> dom \<Rightarrow> unit result" where
  "classList_add t n s =
     (case validateToken t of
        Some e \<Rightarrow> (Inl e, s)
      | None \<Rightarrow> (Inr (), updNode n (\<lambda>nd. let ts = classTokens nd in
                   updateClass (if t \<in> set ts then ts else ts @ [t]) nd) s))"

definition classList_remove :: "string \<Rightarrow> nat \<Rightarrow> dom \<Rightarrow> unit result" where
  "classList_remove t n s =
     (case validateToken t of
        Some e \<Rightarrow> (Inl e, s)
      | None \<Rightarrow> (Inr (), updNode n (\<lambda>nd. updateClass (removeAll t (classTokens nd)) nd) s))"

definition classList_toggle :: "string \<Rightarrow> nat \<Rightarrow> dom \<Rightarrow> unit result" where
  "classList_toggle t n s =
     (case validateToken t of
        Some e \<Rightarrow> (Inl e, s)
      | None \<Rightarrow> (Inr (), updNode n (\<lambda>nd. let ts = classTokens nd in
                   updateClass (if t \<in> set ts then removeAll t ts else ts @ [t]) nd) s))"

subsection \<open>Listeners\<close>

text \<open>
  A node's listener list holds (type, callback, capture). \<^verbatim>\<open>addEventListener\<close> appends
  an entry unless an equal one is there; \<^verbatim>\<open>removeEventListener\<close> removes the equal
  entry. The capture flag is the boolean option itself or the \<^verbatim>\<open>capture\<close> member.
\<close>

definition captureOf :: "listener_options \<Rightarrow> bool" where
  "captureOf opts = (case opts of OptBoolean b \<Rightarrow> b | OptObject c \<Rightarrow> c)"

definition addListener :: "string \<times> listener \<times> bool \<Rightarrow> node \<Rightarrow> node" where
  "addListener l nd = (if l \<in> set (listeners nd) then nd else nd\<lparr>listeners := listeners nd @ [l]\<rparr>)"

definition removeListener :: "string \<times> listener \<times> bool \<Rightarrow> node \<Rightarrow> node" where
  "removeListener l nd = nd\<lparr>listeners := removeAll l (listeners nd)\<rparr>"

definition addEventListener :: "nat \<Rightarrow> string \<Rightarrow> listener \<Rightarrow> listener_options \<Rightarrow> dom \<Rightarrow> unit result" where
  "addEventListener n t cb opts s = (Inr (), updNode n (addListener (t, cb, captureOf opts)) s)"

definition removeEventListener :: "nat \<Rightarrow> string \<Rightarrow> listener \<Rightarrow> listener_options \<Rightarrow> dom \<Rightarrow> unit result" where
  "removeEventListener n t cb opts s = (Inr (), updNode n (removeListener (t, cb, captureOf opts)) s)"

subsection \<open>The tree\<close>

definition indexOf :: "nat \<Rightarrow> nat list \<Rightarrow> nat" where
  "indexOf x xs = length (takeWhile (\<lambda>y. y \<noteq> x) xs)"

definition firstChild :: "nat \<Rightarrow> dom \<Rightarrow> nat option" where
  "firstChild n s = (case childNodes (store s n) of [] \<Rightarrow> None | c # cs \<Rightarrow> Some c)"

definition nextSibling :: "nat \<Rightarrow> dom \<Rightarrow> nat option" where
  "nextSibling n s =
     (case parentNode (store s n) of
        None \<Rightarrow> None
      | Some p \<Rightarrow> (case drop (Suc (indexOf n (childNodes (store s p)))) (childNodes (store s p)) of
                    [] \<Rightarrow> None | c # cs \<Rightarrow> Some c))"

text \<open>Inserting new nodes among the children of \<open>p\<close> at index \<open>i\<close>.\<close>

definition insertNodes :: "nat \<Rightarrow> nat \<Rightarrow> nat list \<Rightarrow> dom \<Rightarrow> dom" where
  "insertNodes p i cs s =
     updNode p (\<lambda>nd. nd\<lparr>childNodes := take i (childNodes nd) @ cs @ drop i (childNodes nd)\<rparr>)
       (fold (\<lambda>c. updNode c (\<lambda>nd. nd\<lparr>parentNode := Some p\<rparr>)) cs s)"

text \<open>
  The host's check before it inserts a new element into \<open>p\<close> before \<open>ref\<close>: the parent
  can have children, the reference node is a child of the parent, and a document keeps a
  single element child.
\<close>

definition preInsertError :: "nat \<Rightarrow> nat option \<Rightarrow> dom \<Rightarrow> error option" where
  "preInsertError p ref s =
     (if kind (store s p) = TextNode then Some HierarchyRequestError
      else if (case ref of None \<Rightarrow> False | Some r \<Rightarrow> parentNode (store s r) \<noteq> Some p)
        then Some NotFoundError
      else if kind (store s p) = DocumentNode
              \<and> list_ex (\<lambda>c. kind (store s c) = ElementNode) (childNodes (store s p))
        then Some HierarchyRequestError
      else None)"

text \<open>
  \<^verbatim>\<open>p.insertBefore(el, ref)\<close> for a newly created element \<open>el\<close>; \<open>ref = None\<close> is a null
  reference, which appends. \<^verbatim>\<open>p.appendChild(el)\<close> is the same with a null reference.
\<close>

definition insertBefore :: "nat \<Rightarrow> nat \<Rightarrow> nat option \<Rightarrow> dom \<Rightarrow> unit result" where
  "insertBefore p el ref s =
     (case preInsertError p ref s of
        Some e \<Rightarrow> (Inl e, s)
      | None \<Rightarrow> (Inr (), insertNodes p
                   (case ref of None \<Rightarrow> length (childNodes (store s p))
                    | Some r \<Rightarrow> indexOf r (childNodes (store s p))) [el] s))"

definition appendChild :: "nat \<Rightarrow> nat \<Rightarrow> dom \<Rightarrow> unit result" where
  "appendChild p el s = insertBefore p el None s"

text \<open>
  \<^verbatim>\<open>p.removeChild(n)\<close> for a node \<open>n\<close> whose parent is \<open>p\<close>.
\<close>

definition removeChild :: "nat \<Rightarrow> nat \<Rightarrow> dom \<Rightarrow> dom" where
  "removeChild p n s =
     updNode n (\<lambda>nd. nd\<lparr>parentNode := None\<rparr>)
       (updNode p (\<lambda>nd. nd\<lparr>childNodes := removeAll n (childNodes nd)\<rparr>) s)"

text \<open>
  \<^verbatim>\<open>document.createElement(tag)\<close>: raises on a name the host does not accept, else
  allocates a new element with the lower-cased name, no parent and no attributes.
\<close>

definition createElement :: "host \<Rightarrow> string \<Rightarrow> dom \<Rightarrow> nat result" where
  "createElement H tag s =
     (if \<not> validElementName H tag then (Inl InvalidCharacterError, s)
      else (Inr (nextId s),
            s\<lparr>store := (store s)(nextId s := newNode ElementNode (toLowerCase tag) [] []),
              nextId := Suc (nextId s)\<rparr>))"

text \<open>
  The nodes of a parsed fragment are allocated in the store, parents before children;
  \<open>build\<close> returns the identity of the root of each tree.
\<close>

fun build :: "nat option \<Rightarrow> tree \<Rightarrow> dom \<Rightarrow> nat \<times> dom"
  and buildAll :: "nat option \<Rightarrow> tree list \<Rightarrow> dom \<Rightarrow> nat list \<times> dom" where
  "build p (Txt d) s =
     (nextId s,
      s\<lparr>store := (store s)(nextId s := (newNode TextNode [] [] d)\<lparr>parentNode := p\<rparr>),
        nextId := Suc (nextId s)\<rparr>)"
| "build p (Elem nm as ts) s =
     (let i = nextId s;
          s1 = s\<lparr>store := (store s)(i := (newNode ElementNode nm as [])\<lparr>parentNode := p\<rparr>),
                 nextId := Suc i\<rparr>;
          (cs, s2) = buildAll (Some i) ts s1
      in (i, updNode i (\<lambda>nd. nd\<lparr>childNodes := cs\<rparr>) s2))"
| "buildAll p [] s = ([], s)"
| "buildAll p (t # ts) s =
     (let (c, s1) = build p t s; (cs, s2) = buildAll p ts s1 in (c # cs, s2))"

datatype position = BeforeBegin | AfterBegin | BeforeEnd | AfterEnd

definition fragmentContext :: "node \<Rightarrow> string" where
  "fragmentContext nd = (if localName nd = ''html'' then ''body'' else localName nd)"

text \<open>
  \<^verbatim>\<open>n.insertAdjacentHTML(position, markup)\<close>. Before and after the element the context is
  its parent, and the host raises \<^verbatim>\<open>NoModificationAllowedError\<close> when there is none or
  when it is the document; inside the element the context is the element itself.
\<close>

definition insertAdjacentHTML :: "host \<Rightarrow> nat \<Rightarrow> position \<Rightarrow> string \<Rightarrow> dom \<Rightarrow> unit result" where
  "insertAdjacentHTML H n pos markup s =
     (if pos = BeforeBegin \<or> pos = AfterEnd then
        (case parentNode (store s n) of
           None \<Rightarrow> (Inl NoModificationAllowedError, s)
         | Some p \<Rightarrow>
             if kind (store s p) = DocumentNode then (Inl NoModificationAllowedError, s)
             else (let (cs, s1) = buildAll None (parseFragment H (fragmentContext (store s p)) markup) s;
                       i = indexOf n (childNodes (store s1 p)) + (if pos = AfterEnd then 1 else 0)
                   in (Inr (), insertNodes p i cs s1)))
      else (let (cs, s1) = buildAll None (parseFragment H (fragmentContext (store s n)) markup) s;
                i = (if pos = AfterBegin then 0 else length (childNodes (store s1 n)))
            in (Inr (), insertNodes n i cs s1)))"

text \<open>
  The setters of \<^verbatim>\<open>innerHTML\<close> and \<^verbatim>\<open>innerText\<close> replace all children of the element:
  the first by the parsed markup, the second by the text, with a \<^verbatim>\<open>br\<close> element for
  every line break. Both write null as the empty string.
\<close>

definition removeAllChildren :: "nat \<Rightarrow> dom \<Rightarrow> dom" where
  "removeAllChildren n s =
     updNode n (\<lambda>nd. nd\<lparr>childNodes := []\<rparr>)
       (fold (\<lambda>c. updNode c (\<lambda>nd. nd\<lparr>parentNode := None\<rparr>)) (childNodes (store s n)) s)"

definition replaceAll :: "nat \<Rightarrow> tree list \<Rightarrow> dom \<Rightarrow> dom" where
  "replaceAll n ts s =
     (let (cs, s1) = buildAll None ts s in insertNodes n 0 cs (removeAllChildren n s1))"

definition legacyNullToString :: "jsval \<Rightarrow> string" where
  "legacyNullToString v = (if v = JNull then [] else ToString v)"

fun normalizeNewlines :: "string \<Rightarrow> string" where
  "normalizeNewlines [] = []"
| "normalizeNewlines [c] = [if c = CHR 0x0D then CHR 0x0A else c]"
| "normalizeNewlines (c # d # cs) =
     (if c = CHR 0x0D \<and> d = CHR 0x0A then CHR 0x0A # normalizeNewlines cs
      else (if c = CHR 0x0D then CHR 0x0A else c) # normalizeNewlines (d # cs))"

fun textLines :: "string \<Rightarrow> string \<Rightarrow> tree list" where
  "textLines acc [] = (if acc = [] then [] else [Txt acc])"
| "textLines acc (c # cs) =
     (if c = CHR 0x0A then (if acc = [] then [] else [Txt acc]) @ [Elem ''br'' [] []] @ textLines [] cs
      else textLines (acc @ [c]) cs)"

definition renderedTextFragment :: "string \<Rightarrow> tree list" where
  "renderedTextFragment str = textLines [] (normalizeNewlines str)"

definition setInnerHTML :: "host \<Rightarrow> nat \<Rightarrow> jsval \<Rightarrow> dom \<Rightarrow> unit result" where
  "setInnerHTML H n v s =
     (Inr (), replaceAll n (parseFragment H (localName (store s n)) (legacyNullToString v)) s)"

definition setInnerText :: "nat \<Rightarrow> jsval \<Rightarrow> dom \<Rightarrow> unit result" where
  "setInnerText n v s = (Inr (), replaceAll n (renderedTextFragment (legacyNullToString v)) s)"

section \<open>The library\<close>

subsection \<open>Resolving a selector\<close>

text \<open>
  The argument of \<^verbatim>\<open>nq\<close>: a string, an \<^verbatim>\<open>HTMLElement\<close>, a \<^verbatim>\<open>NodeList\<close>, an
  \<^verbatim>\<open>HTMLCollection\<close>, or a value of no such type. The constructor \<^verbatim>\<open>Query\<close> receives
  what \<^verbatim>\<open>nq\<close> hands it: an array-like list of nodes, or the element itself.
\<close>

datatype selector =
  SelString string | SelElement nat | SelNodeList "nat list" | SelHTMLCollection "nat list"
  | SelOther

datatype nodeset = ArrayLike "nat list" | Single nat

text \<open>
  \<^verbatim>\<open>this.nodes = nodes.length === 1 ? [nodes[0]] : Array.from(nodes)\<close>. On an element that
  has no \<^verbatim>\<open>length\<close> the comparison is false and \<^verbatim>\<open>Array.from\<close> gives the empty array.
\<close>

definition Query :: "host \<Rightarrow> dom \<Rightarrow> nodeset \<Rightarrow> query" where
  "Query H s ns =
     (case ns of
        ArrayLike xs \<Rightarrow> \<lparr>nodes = (if length xs = 1 then [xs ! 0] else xs)\<rparr>
      | Single e \<Rightarrow>
          (case indexed (props H s e) of
             None \<Rightarrow> \<lparr>nodes = []\<rparr>
           | Some xs \<Rightarrow> \<lparr>nodes = (if length xs = 1 then [xs ! 0] else xs)\<rparr>))"

text \<open>\<open>Inr None\<close> is the result \<^verbatim>\<open>undefined\<close> of a call that reaches no \<^verbatim>\<open>return\<close>.\<close>

definition nq :: "host \<Rightarrow> selector \<Rightarrow> dom \<Rightarrow> error + query option" where
  "nq H sel s =
     (case sel of
        SelString str \<Rightarrow>
          (case querySelectorAll H s str of
             Inl e \<Rightarrow> Inl e
           | Inr xs \<Rightarrow> Inr (Some (Query H s (ArrayLike xs))))
      | SelElement e \<Rightarrow>
          Inr (Some (Query H s
            (if tagName (store s e) = ''FORM'' then ArrayLike (elements (props H s e))
             else Single e)))
      | SelNodeList xs \<Rightarrow> Inr (Some (Query H s (ArrayLike xs)))
      | SelHTMLCollection xs \<Rightarrow> Inr (Some (Query H s (ArrayLike xs)))
      | SelOther \<Rightarrow> Inr None)"

subsection \<open>The methods of a collection\<close>

text \<open>
  The members of a collection are elements (the constructor's parameter is declared
  \<^verbatim>\<open>HTMLElement[]\<close>), and the methods call the host's element primitives on them.

  \<^verbatim>\<open>for (const x of xs) body\<close>: the body runs on each member in order and an error
  raised by the body ends the loop, with the state as it is then.
\<close>

fun forEach :: "('a \<Rightarrow> dom \<Rightarrow> unit result) \<Rightarrow> 'a list \<Rightarrow> dom \<Rightarrow> unit result" where
  "forEach f [] s = (Inr (), s)"
| "forEach f (x # xs) s =
     (case f x s of (Inl e, s1) \<Rightarrow> (Inl e, s1) | (Inr u, s1) \<Rightarrow> forEach f xs s1)"

definition returnThis :: "query \<Rightarrow> unit result \<Rightarrow> query result" where
  "returnThis q r = andThen r (\<lambda>u s. (Inr q, s))"

text \<open>The first argument of the insertion methods: a string, or a value that is none.\<close>

datatype input = InStr string | InElement nat

definition isHTMLString :: "input \<Rightarrow> bool" where
  "isHTMLString inp =
     (case inp of
        InStr str \<Rightarrow> startsWith (trim str) ''<'' \<and> endsWith (trim str) ''>''
      | InElement e \<Rightarrow> False)"

text \<open>
  The block that the four insertion methods share: create the element, and when
  \<^verbatim>\<open>attributes\<close> is given set each of its members, in enumeration order.
\<close>

definition newElement :: "host \<Rightarrow> string \<Rightarrow> (string \<times> jsval) list option \<Rightarrow> dom \<Rightarrow> nat result" where
  "newElement H tag attrs s =
     andThen (createElement H tag s) (\<lambda>el s1.
       andThen (case attrs of
                  None \<Rightarrow> (Inr (), s1)
                | Some as \<Rightarrow> forEach (\<lambda>av. setAttribute H el (fst av) (snd av)) as s1)
         (\<lambda>u s2. (Inr el, s2)))"

definition addClass :: "query \<Rightarrow> string \<Rightarrow> dom \<Rightarrow> query result" where
  "addClass q className s = returnThis q (forEach (classList_add className) (nodes q) s)"

definition after_step :: "host \<Rightarrow> input \<Rightarrow> (string \<times> jsval) list option \<Rightarrow> nat \<Rightarrow> dom \<Rightarrow> unit result" where
  "after_step H inp attrs n s =
     (case inp of
        InStr str \<Rightarrow>
          if isHTMLString inp then insertAdjacentHTML H n AfterEnd str s
          else andThen (newElement H str attrs s) (\<lambda>el s1.
                 case parentNode (store s1 n) of
                   None \<Rightarrow> (Inl TypeError, s1)
                 | Some p \<Rightarrow> insertBefore p el (nextSibling n s1) s1)
      | InElement e \<Rightarrow> (Inr (), s))"

definition after :: "host \<Rightarrow> query \<Rightarrow> input \<Rightarrow> (string \<times> jsval) list option \<Rightarrow> dom \<Rightarrow> query result" where
  "after H q inp attrs s = returnThis q (forEach (after_step H inp attrs) (nodes q) s)"

definition append_step :: "host \<Rightarrow> input \<Rightarrow> (string \<times> jsval) list option \<Rightarrow> nat \<Rightarrow> dom \<Rightarrow> unit result" where
  "append_step H inp attrs n s =
     (case inp of
        InStr str \<Rightarrow>
          if isHTMLString inp then insertAdjacentHTML H n BeforeEnd str s
          else andThen (newElement H str attrs s) (\<lambda>el s1. appendChild n el s1)
      | InElement e \<Rightarrow> (Inr (), s))"

definition append_nq :: "host \<Rightarrow> query \<Rightarrow> input \<Rightarrow> (string \<times> jsval) list option \<Rightarrow> dom \<Rightarrow> query result" where
  "append_nq H q inp attrs s = returnThis q (forEach (append_step H inp attrs) (nodes q) s)"

datatype getset = This query | Got "string option"

definition attr :: "host \<Rightarrow> query \<Rightarrow> string \<Rightarrow> jsval \<Rightarrow> dom \<Rightarrow> getset result" where
  "attr H q a v s =
     (if v \<noteq> JUndefined then
        andThen (forEach (\<lambda>n. setAttribute H n a v) (nodes q) s) (\<lambda>u s1. (Inr (This q), s1))
      else (Inr (Got (if length (nodes q) \<noteq> 0 then getAttribute (nodes q ! 0) a s else None)), s))"

definition before_step :: "host \<Rightarrow> input \<Rightarrow> (string \<times> jsval) list option \<Rightarrow> nat \<Rightarrow> dom \<Rightarrow> unit result" where
  "before_step H inp attrs n s =
     (case inp of
        InStr str \<Rightarrow>
          if isHTMLString inp then insertAdjacentHTML H n BeforeBegin str s
          else andThen (newElement H str attrs s) (\<lambda>el s1.
                 case parentNode (store s1 n) of
                   None \<Rightarrow> (Inl TypeError, s1)
                 | Some p \<Rightarrow> insertBefore p el (Some n) s1)
      | InElement e \<Rightarrow> (Inr (), s))"

definition before :: "host \<Rightarrow> query \<Rightarrow> input \<Rightarrow> (string \<times> jsval) list option \<Rightarrow> dom \<Rightarrow> query result" where
  "before H q inp attrs s = returnThis q (forEach (before_step H inp attrs) (nodes q) s)"

definition html :: "host \<Rightarrow> query \<Rightarrow> jsval \<Rightarrow> dom \<Rightarrow> getset result" where
  "html H q content s =
     (if content \<noteq> JUndefined then
        andThen (forEach (\<lambda>n. setInnerHTML H n content) (nodes q) s) (\<lambda>u s1. (Inr (This q), s1))
      else (Inr (Got (if length (nodes q) \<noteq> 0 then Some (getInnerHTML H s (nodes q ! 0)) else None)), s))"

definition orFalse :: "listener_options option \<Rightarrow> listener_options" where
  "orFalse opts = (case opts of None \<Rightarrow> OptBoolean False | Some x \<Rightarrow> x)"

definition off :: "query \<Rightarrow> string \<Rightarrow> listener \<Rightarrow> listener_options option \<Rightarrow> dom \<Rightarrow> query result" where
  "off q event cb opts s =
     returnThis q (forEach (\<lambda>n. removeEventListener n event cb (orFalse opts)) (nodes q) s)"

definition on :: "query \<Rightarrow> string \<Rightarrow> listener \<Rightarrow> listener_options option \<Rightarrow> dom \<Rightarrow> query result" where
  "on q event cb opts s =
     returnThis q (forEach (\<lambda>n. addEventListener n event cb (orFalse opts)) (nodes q) s)"

text \<open>
  \<^verbatim>\<open>one\<close> creates the closure \<^verbatim>\<open>oneTimeHandler\<close> over \<^verbatim>\<open>handler\<close>, \<^verbatim>\<open>self\<close> and
  \<^verbatim>\<open>options\<close> and registers it with \<^verbatim>\<open>on\<close>.
\<close>

definition one :: "query \<Rightarrow> string \<Rightarrow> nat \<Rightarrow> listener_options option \<Rightarrow> dom \<Rightarrow> query result" where
  "one q event handler opts s =
     on q event (OneTimeHandler (nextFn s) handler q opts) opts (s\<lparr>nextFn := Suc (nextFn s)\<rparr>)"

definition prepend_step :: "host \<Rightarrow> input \<Rightarrow> (string \<times> jsval) list option \<Rightarrow> nat \<Rightarrow> dom \<Rightarrow> unit result" where
  "prepend_step H inp attrs n s =
     (case inp of
        InStr str \<Rightarrow>
          if isHTMLString inp then insertAdjacentHTML H n AfterBegin str s
          else andThen (newElement H str attrs s) (\<lambda>el s1. insertBefore n el (firstChild n s1) s1)
      | InElement e \<Rightarrow> (Inr (), s))"

definition prepend :: "host \<Rightarrow> query \<Rightarrow> input \<Rightarrow> (string \<times> jsval) list option \<Rightarrow> dom \<Rightarrow> query result" where
  "prepend H q inp attrs s = returnThis q (forEach (prepend_step H inp attrs) (nodes q) s)"

definition remove_step :: "nat \<Rightarrow> dom \<Rightarrow> unit result" where
  "remove_step n s =
     (case parentNode (store s n) of
        None \<Rightarrow> (Inr (), s)
      | Some p \<Rightarrow> (Inr (), removeChild p n s))"

definition remove :: "query \<Rightarrow> dom \<Rightarrow> query result" where
  "remove q s = returnThis q (forEach remove_step (nodes q) s)"

definition removeClass :: "query \<Rightarrow> string \<Rightarrow> dom \<Rightarrow> query result" where
  "removeClass q className s = returnThis q (forEach (classList_remove className) (nodes q) s)"

text \<open>
  The serialisation reads the reflected properties of each element. A value is truthy
  as the language has it: a string that is defined and not empty, a boolean that is
  defined and true. Iterating \<^verbatim>\<open>element.options\<close> raises \<^verbatim>\<open>TypeError\<close> when the
  element has no such property.
\<close>

definition encodeValue :: "jsstring option \<Rightarrow> error + string" where
  "encodeValue v = encodeURIComponent (case v of None \<Rightarrow> jsString ''undefined'' | Some x \<Rightarrow> x)"

text \<open>
  The pushed string \<^verbatim>\<open>encodeURIComponent(name) + '=' + encodeURIComponent(value)\<close>:
  the name is encoded first, and an encoding that raises ends the method.
\<close>

definition encodePair :: "jsstring \<Rightarrow> jsstring option \<Rightarrow> error + string" where
  "encodePair nm v =
     (case encodeURIComponent nm of
        Inl err \<Rightarrow> Inl err
      | Inr a \<Rightarrow>
          (case encodeValue v of
             Inl err \<Rightarrow> Inl err
           | Inr b \<Rightarrow> Inr (a @ ''='' @ b)))"

fun serialize_options :: "host \<Rightarrow> dom \<Rightarrow> jsstring \<Rightarrow> nat list \<Rightarrow> error + string list" where
  "serialize_options H s nm [] = Inr []"
| "serialize_options H s nm (opt # os) =
     (if selected (props H s opt) = Some True then
        (case encodePair nm (valueProp (props H s opt)) of
           Inl err \<Rightarrow> Inl err
         | Inr x \<Rightarrow>
             (case serialize_options H s nm os of
                Inl err \<Rightarrow> Inl err
              | Inr xs \<Rightarrow> Inr (x # xs)))
      else serialize_options H s nm os)"

definition serialize_step :: "host \<Rightarrow> dom \<Rightarrow> nat \<Rightarrow> error + string list" where
  "serialize_step H s e =
     (let el = props H s e in
      case name el of
        None \<Rightarrow> Inr []
      | Some nm \<Rightarrow>
          if nm \<noteq> [] \<and> disabled el \<noteq> Some True
             \<and> typeProp el \<notin> set (map Some [''file'', ''reset'', ''submit'', ''button''])
          then
            (if typeProp el = Some ''select-multiple'' then
               (case options el of
                  None \<Rightarrow> Inl TypeError
                | Some os \<Rightarrow> serialize_options H s nm os)
             else if (typeProp el \<noteq> Some ''checkbox'' \<and> typeProp el \<noteq> Some ''radio'')
                     \<or> checked el = Some True
               then (case encodePair nm (valueProp el) of
                       Inl err \<Rightarrow> Inl err
                     | Inr x \<Rightarrow> Inr [x])
             else Inr [])
          else Inr [])"

fun serialize_loop :: "host \<Rightarrow> dom \<Rightarrow> nat list \<Rightarrow> string list \<Rightarrow> error + string list" where
  "serialize_loop H s [] formElements = Inr formElements"
| "serialize_loop H s (e # es) formElements =
     (case serialize_step H s e of
        Inl err \<Rightarrow> Inl err
      | Inr xs \<Rightarrow> serialize_loop H s es (formElements @ xs))"

definition serialize :: "host \<Rightarrow> query \<Rightarrow> dom \<Rightarrow> error + string" where
  "serialize H q s =
     (case serialize_loop H s (nodes q) [] of
        Inl err \<Rightarrow> Inl err
      | Inr formElements \<Rightarrow> Inr (join ''&'' formElements))"

text \<open>A record \<^verbatim>\<open>{name, value}\<close> is the pair of its two members.\<close>

type_synonym pair = "jsstring \<times> jsstring option"

definition serializeArray_step :: "host \<Rightarrow> dom \<Rightarrow> nat \<Rightarrow> error + pair list" where
  "serializeArray_step H s e =
     (let el = props H s e in
      case name el of
        None \<Rightarrow> Inr []
      | Some nm \<Rightarrow>
          if nm \<noteq> [] \<and> disabled el \<noteq> Some True
             \<and> typeProp el \<notin> set (map Some [''file'', ''reset'', ''submit'', ''button''])
          then
            (if typeProp el = Some ''select-multiple'' then
               (case options el of
                  None \<Rightarrow> Inl TypeError
                | Some os \<Rightarrow>
                    Inr (map (\<lambda>opt. (nm, valueProp (props H s opt)))
                          (filter (\<lambda>opt. selected (props H s opt) = Some True) os)))
             else if (typeProp el \<noteq> Some ''checkbox'' \<and> typeProp el \<noteq> Some ''radio'')
                     \<or> checked el = Some True
               then Inr [(nm, valueProp el)]
             else Inr [])
          else Inr [])"

fun serializeArray_loop :: "host \<Rightarrow> dom \<Rightarrow> nat list \<Rightarrow> pair list \<Rightarrow> error + pair list" where
  "serializeArray_loop H s [] formArray = Inr formArray"
| "serializeArray_loop H s (e # es) formArray =
     (case serializeArray_step H s e of
        Inl err \<Rightarrow> Inl err
      | Inr xs \<Rightarrow> serializeArray_loop H s es (formArray @ xs))"

definition serializeArray :: "host \<Rightarrow> query \<Rightarrow> dom \<Rightarrow> error + pair list" where
  "serializeArray H q s = serializeArray_loop H s (nodes q) []"

definition text_nq :: "host \<Rightarrow> query \<Rightarrow> jsval \<Rightarrow> dom \<Rightarrow> getset result" where
  "text_nq H q content s =
     (if content \<noteq> JUndefined then
        andThen (forEach (\<lambda>n. setInnerText n content) (nodes q) s) (\<lambda>u s1. (Inr (This q), s1))
      else (Inr (Got (if length (nodes q) \<noteq> 0 then Some (getInnerText H s (nodes q ! 0)) else None)), s))"

definition toggleClass :: "query \<Rightarrow> string \<Rightarrow> dom \<Rightarrow> query result" where
  "toggleClass q className s = returnThis q (forEach (classList_toggle className) (nodes q) s)"

subsection \<open>The host calling listeners\<close>

text \<open>
  Calling a listener with \<^verbatim>\<open>this\<close> the node and an event of type \<open>t\<close>. A client
  callback is recorded. The closure of \<^verbatim>\<open>one\<close> runs its body:
  \<^verbatim>\<open>handler.call(this, event)\<close>, then \<^verbatim>\<open>self.off(event.type, oneTimeHandler, options)\<close>.
  The body has no \<^verbatim>\<open>try\<close>: when the handler raises, the closure ends there and
  \<^verbatim>\<open>self.off\<close> is not reached. The host reports an exception of a listener and goes
  on with the dispatch, so that the call of a listener always gives a state.
\<close>

definition callListener :: "listener \<Rightarrow> nat \<Rightarrow> string \<Rightarrow> dom \<Rightarrow> dom" where
  "callListener cb this t s =
     (case cb of
        UserFn h \<Rightarrow> s\<lparr>calls := calls s @ [(h, this, t)]\<rparr>
      | OneTimeHandler k h self opts \<Rightarrow>
          (let s1 = s\<lparr>calls := calls s @ [(h, this, t)]\<rparr> in
           if raising s h then s1
           else snd (off self t (OneTimeHandler k h self opts) opts s1)))"

text \<open>
  The host invokes the listeners of a node for an event of type \<open>t\<close> in one phase of
  the dispatch: the listeners of that type and of that phase (capturing listeners in
  the capturing phase, the others in the bubbling phase) that are registered when the
  invocation starts, in order of registration, each unless it has been removed in the
  meantime. \<^verbatim>\<open>this\<close> is the node.
\<close>

datatype phase = Capturing | Bubbling

fun invokeListeners :: "(string \<times> listener \<times> bool) list \<Rightarrow> nat \<Rightarrow> string \<Rightarrow> dom \<Rightarrow> dom" where
  "invokeListeners [] n t s = s"
| "invokeListeners (l # ls) n t s =
     invokeListeners ls n t
       (if l \<in> set (listeners (store s n)) then callListener (fst (snd l)) n t s else s)"

definition invokeAt :: "phase \<Rightarrow> string \<Rightarrow> nat \<Rightarrow> dom \<Rightarrow> dom" where
  "invokeAt ph t n s =
     invokeListeners
       (filter (\<lambda>l. fst l = t \<and> snd (snd l) = (ph = Capturing)) (listeners (store s n))) n t s"

text \<open>
  The path of an event is its target followed by the target's ancestors, as they are
  when the dispatch starts (a chain of parents is shorter than the number of nodes).
  The host walks the path from the outermost node down to the target in the capturing
  phase, then from the target up in the bubbling phase; above the target the bubbling
  phase runs only for an event that bubbles.
\<close>

fun ancestors :: "nat \<Rightarrow> nat \<Rightarrow> dom \<Rightarrow> nat list" where
  "ancestors 0 n s = []"
| "ancestors (Suc k) n s =
     (case parentNode (store s n) of None \<Rightarrow> [] | Some p \<Rightarrow> p # ancestors k p s)"

definition eventPath :: "nat \<Rightarrow> dom \<Rightarrow> nat list" where
  "eventPath target s = target # ancestors (nextId s) target s"

definition dispatchEvent :: "nat \<Rightarrow> string \<Rightarrow> bool \<Rightarrow> dom \<Rightarrow> dom" where
  "dispatchEvent target t bubbles s =
     (let path = eventPath target s;
          s1 = fold (invokeAt Capturing t) (rev path) s
      in fold (\<lambda>n s2. if n = target \<or> bubbles then invokeAt Bubbling t n s2 else s2) path s1)"

section \<open>A host and documents for the examples\<close>

text \<open>
  A small host: input elements reflect their content attributes, a form's controls are
  its input children, and every other element has none of the properties. Its selector
  engine knows type selectors, its parser the markup of the examples (everything else
  is read as text), and a name is accepted when it is not empty and has no white space.
\<close>

definition sampleProps :: "dom \<Rightarrow> nat \<Rightarrow> props" where
  "sampleProps s e =
     (let nd = store s e; at = map_of (attributes nd) in
      if localName nd = ''input'' then
        \<lparr>name = Some (jsString (case at ''name'' of None \<Rightarrow> [] | Some v \<Rightarrow> v)),
         disabled = Some (at ''disabled'' \<noteq> None),
         typeProp = Some (case at ''type'' of None \<Rightarrow> ''text'' | Some v \<Rightarrow> v),
         checked = Some (at ''checked'' \<noteq> None),
         valueProp = Some (jsString (case at ''value'' of None \<Rightarrow> [] | Some v \<Rightarrow> v)),
         options = None, selected = None, elements = [], indexed = None\<rparr>
      else if localName nd = ''form'' then
        \<lparr>name = Some (jsString (case at ''name'' of None \<Rightarrow> [] | Some v \<Rightarrow> v)),
         disabled = None, typeProp = None, checked = None, valueProp = None,
         options = None, selected = None,
         elements = filter (\<lambda>c. localName (store s c) = ''input'') (childNodes nd),
         indexed = Some (filter (\<lambda>c. localName (store s c) = ''input'') (childNodes nd))\<rparr>
      else
        \<lparr>name = None, disabled = None, typeProp = None, checked = None, valueProp = None,
         options = None, selected = None, elements = [], indexed = None\<rparr>)"

definition sampleName :: "string \<Rightarrow> bool" where
  "sampleName nm = (nm \<noteq> [] \<and> \<not> list_ex isAsciiWhitespace nm)"

definition sampleHost :: host where
  "sampleHost =
     \<lparr>querySelectorAll = (\<lambda>s sel. Inr (filter (\<lambda>n. kind (store s n) = ElementNode
                                  \<and> localName (store s n) = sel) [0..<nextId s])),
      parseFragment = (\<lambda>ctx markup.
         if markup = ''<span>x</span>'' then [Elem ''span'' [] [Txt ''x'']] else [Txt markup]),
      getInnerHTML = (\<lambda>s n. concat (map (\<lambda>c. data (store s c)) (childNodes (store s n)))),
      getInnerText = (\<lambda>s n. concat (map (\<lambda>c. data (store s c)) (childNodes (store s n)))),
      validElementName = sampleName,
      validAttributeName = sampleName,
      props = sampleProps\<rparr>"

text \<open>A \<^verbatim>\<open>div\<close> (node 0) with two \<^verbatim>\<open>div\<close> children (nodes 1 and 2).\<close>

definition siblingsPage :: dom where
  "siblingsPage =
     \<lparr>store = (\<lambda>i. newNode ElementNode ''div'' [] [])
        (0 := (newNode ElementNode ''div'' [] [])\<lparr>childNodes := [1, 2]\<rparr>,
         1 := (newNode ElementNode ''div'' [] [])\<lparr>parentNode := Some 0\<rparr>,
         2 := (newNode ElementNode ''div'' [] [])\<lparr>parentNode := Some 0\<rparr>),
      nextId = 3, nextFn = 0, calls = [],
      raising = (\<lambda>h. False)\<rparr>"

text \<open>
  A form (node 0) with a text input \<^verbatim>\<open>name=a value=hello\<close>, an unchecked checkbox
  \<^verbatim>\<open>name=b\<close> and a checked radio \<^verbatim>\<open>name=c value=yes\<close> (nodes 1, 2, 3).
\<close>

definition formPage :: dom where
  "formPage =
     \<lparr>store = (\<lambda>i. newNode ElementNode ''div'' [] [])
        (0 := (newNode ElementNode ''form'' [] [])\<lparr>childNodes := [1, 2, 3]\<rparr>,
         1 := (newNode ElementNode ''input''
                 [(''type'', ''text''), (''name'', ''a''), (''value'', ''hello'')] [])
                 \<lparr>parentNode := Some 0\<rparr>,
         2 := (newNode ElementNode ''input'' [(''type'', ''checkbox''), (''name'', ''b'')] [])
                 \<lparr>parentNode := Some 0\<rparr>,
         3 := (newNode ElementNode ''input''
                 [(''type'', ''radio''), (''name'', ''c''), (''value'', ''yes''), (''checked'', [])] [])
                 \<lparr>parentNode := Some 0\<rparr>),
      nextId = 4, nextFn = 0, calls = [],
      raising = (\<lambda>h. False)\<rparr>"

text \<open>A single \<^verbatim>\<open>div\<close> (node 0) that has no parent.\<close>

definition detachedPage :: dom where
  "detachedPage =
     \<lparr>store = (\<lambda>i. newNode ElementNode ''div'' [] []), nextId = 1, nextFn = 0,
      calls = [], raising = (\<lambda>h. False)\<rparr>"

text \<open>
  The host \<open>scriptedHost n f\<close> is the small host after the properties of the element
  \<open>n\<close> have been changed by \<open>f\<close>: the user has typed into the control or a script has
  assigned its \<^verbatim>\<open>value\<close>, which then no longer reflects the content attribute, or a
  script has defined a property on the object.
\<close>

definition scriptedHost :: "nat \<Rightarrow> (props \<Rightarrow> props) \<Rightarrow> host" where
  "scriptedHost n f =
     sampleHost\<lparr>props := (\<lambda>s e. if e = n then f (sampleProps s e) else sampleProps s e)\<rparr>"

text \<open>
  A form (node 0) with two text inputs (nodes 1 and 2): \<^verbatim>\<open>name=q\<close>, and
  \<^verbatim>\<open>name="a b"\<close> with the value \<^verbatim>\<open>x&y=z\<close> followed by a space and the letter e with
  an acute accent (code 233).
\<close>

definition searchPage :: dom where
  "searchPage =
     \<lparr>store = (\<lambda>i. newNode ElementNode ''div'' [] [])
        (0 := (newNode ElementNode ''form'' [] [])\<lparr>childNodes := [1, 2]\<rparr>,
         1 := (newNode ElementNode ''input'' [(''type'', ''text''), (''name'', ''q'')] [])
                 \<lparr>parentNode := Some 0\<rparr>,
         2 := (newNode ElementNode ''input''
                 [(''type'', ''text''), (''name'', ''a b''),
                  (''value'', ''x&y=z '' @ [CHR 0xE9])] [])
                 \<lparr>parentNode := Some 0\<rparr>),
      nextId = 3, nextFn = 0, calls = [], raising = (\<lambda>h. False)\<rparr>"

text \<open>
  The records \<^verbatim>\<open>{name, value}\<close> of a list written as \<^verbatim>\<open>serialize\<close> writes pairs:
  each is the percent-encoded name, \<^verbatim>\<open>=\<close>, the percent-encoded value, and the first
  encoding that raises ends the rendering. \<open>wellFormedPair\<close> says that neither member of
  a record has a surrogate outside a pair (a value that is \<^verbatim>\<open>undefined\<close> is written
  \<^verbatim>\<open>undefined\<close>).
\<close>

fun renderPairs :: "pair list \<Rightarrow> error + string list" where
  "renderPairs [] = Inr []"
| "renderPairs (p # ps) =
     (case encodePair (fst p) (snd p) of
        Inl err \<Rightarrow> Inl err
      | Inr x \<Rightarrow>
          (case renderPairs ps of
             Inl err \<Rightarrow> Inl err
           | Inr xs \<Rightarrow> Inr (x # xs)))"

definition wellFormedPair :: "pair \<Rightarrow> bool" where
  "wellFormedPair p = (wellFormed (fst p) \<and> (case snd p of None \<Rightarrow> True | Some v \<Rightarrow> wellFormed v))"

text \<open>
  What a method leaves of the collection it was called on is the collection it returns
  (\<^verbatim>\<open>this\<close>): \<open>sameMembers q r\<close> says that a returned collection has the member list
  of \<open>q\<close>, the same references in the same order.
\<close>

definition sameMembers :: "query \<Rightarrow> error + query \<Rightarrow> bool" where
  "sameMembers q r = (case r of Inl e \<Rightarrow> True | Inr q' \<Rightarrow> nodes q' = nodes q)"

definition sameMembersGS :: "query \<Rightarrow> error + getset \<Rightarrow> bool" where
  "sameMembersGS q r =
     (case r of Inl e \<Rightarrow> True | Inr (Got x) \<Rightarrow> True | Inr (This q') \<Rightarrow> nodes q' = nodes q)"

text \<open>
  For the statements about the insertion methods: \<open>parentsBelow k s s'\<close> says that from
  \<open>s\<close> to \<open>s'\<close> no node identity is given up and the nodes below \<open>k\<close> keep their parent;
  \<open>validAttributes\<close> says that the host accepts every name of the \<^verbatim>\<open>attributes\<close>
  argument; \<open>spanNode\<close> and \<open>textNode\<close> are a \<^verbatim>\<open>span\<close> element and a text node with a
  parent.
\<close>

definition parentsBelow :: "nat \<Rightarrow> dom \<Rightarrow> dom \<Rightarrow> bool" where
  "parentsBelow k s s' =
     (nextId s \<le> nextId s' \<and> (\<forall>m < k. parentNode (store s' m) = parentNode (store s m)))"

definition validAttributes :: "host \<Rightarrow> (string \<times> jsval) list option \<Rightarrow> bool" where
  "validAttributes H attrs =
     (case attrs of None \<Rightarrow> True | Some as \<Rightarrow> list_all (\<lambda>av. validAttributeName H (fst av)) as)"



section \<open>Basic facts\<close>

lemma andThen_Inl: "andThen (Inl e, s) f = (Inl e, s)"
  by (simp add: andThen_def)

lemma andThen_Inr: "andThen (Inr x, s) f = f x s"
  by (simp add: andThen_def)

section \<open>Resolving a single element\<close>

lemma nq_element_without_length:
  assumes "tagName (store s e) \<noteq> ''FORM''" and "indexed (props H s e) = None"
  shows "nq H (SelElement e) s = Inr (Some \<lparr>nodes = []\<rparr>)"
  using assms by (simp add: nq_def Query_def)

text \<open>
  C2. Claim: resolving a single element that is not a form gives the collection whose
  nodes are exactly that element. The code does not: for the \<^verbatim>\<open>div\<close> of
  \<open>detachedPage\<close>, an element with no \<^verbatim>\<open>length\<close>, \<^verbatim>\<open>nq\<close> returns the empty collection
  and not the collection of node 0.
\<close>

theorem nq_single_div_is_empty:
  "nq sampleHost (SelElement 0) detachedPage = Inr (Some \<lparr>nodes = []\<rparr>)
   \<and> nq sampleHost (SelElement 0) detachedPage \<noteq> Inr (Some \<lparr>nodes = [0]\<rparr>)"
proof -
  have "tagName (store detachedPage 0) \<noteq> ''FORM''"
    by code_simp
  moreover have "indexed (props sampleHost detachedPage 0) = None"
    by code_simp
  ultimately have "nq sampleHost (SelElement 0) detachedPage = Inr (Some \<lparr>nodes = []\<rparr>)"
    by (rule nq_element_without_length)
  then show ?thesis by simp
qed

section \<open>Serialisation\<close>

lemma jsString_eq_Nil [simp]: "jsString str = [] \<longleftrightarrow> str = []"
  by (simp add: jsString_def)

lemma unreserved_small: "unreserved c = Some ch \<Longrightarrow> unat c < 256"
proof -
  assume "unreserved c = Some ch"
  then have "of_char ch = unat c"
    by (auto simp: unreserved_def find_Some_iff)
  moreover have "(of_char ch :: nat) mod 256 = of_char ch"
    by simp
  then have "(of_char ch :: nat) < 256"
    by (metis mod_less_divisor zero_less_numeral)
  ultimately show ?thesis by simp
qed

lemma unreserved_not_surrogate:
  "unreserved c = Some ch \<Longrightarrow> \<not> isLeadingSurrogate c \<and> \<not> isTrailingSurrogate c"
  using unreserved_small [of c ch] by (simp add: isLeadingSurrogate_def isTrailingSurrogate_def)

lemma escape_Inl: "escape cp r = Inl e \<longleftrightarrow> r = Inl e"
  by (simp add: escape_def split: sum.splits)

lemma escape_Inr_ex: "(\<exists>str. escape cp r = Inr str) \<longleftrightarrow> (\<exists>str. r = Inr str)"
  by (cases r) (simp_all add: escape_def)

lemma encodeURIComponent_error: "encodeURIComponent cs = Inl e \<Longrightarrow> e = URIError"
proof (induction cs rule: encodeURIComponent.induct)
  case 1 then show ?case by simp
next
  case (2 c) then show ?case by (simp add: escape_def split: if_splits option.splits)
next
  case (3 c d cs)
  then show ?case
    by (simp add: escape_Inl split: if_splits sum.splits option.splits)
qed

lemma encodeURIComponent_returns:
  "(\<exists>str. encodeURIComponent cs = Inr str) \<longleftrightarrow> wellFormed cs"
proof (induction cs rule: encodeURIComponent.induct)
  case 1 then show ?case by simp
next
  case (2 c) then show ?case
    using unreserved_not_surrogate [of c] by (cases "unreserved c") (auto simp: escape_def)
next
  case (3 c d cs)
  show ?case
  proof (cases "unreserved c")
    case (Some ch)
    then have "\<not> isLeadingSurrogate c" "\<not> isTrailingSurrogate c"
      using unreserved_not_surrogate [of c ch] by simp_all
    then show ?thesis using Some 3(3) [OF Some]
      by (cases "encodeURIComponent (d # cs)") simp_all
  next
    case None
    then show ?thesis using 3(1,2)
      by (simp add: escape_Inr_ex)
  qed
qed

lemma encodeURIComponent_undefined:
  "encodeURIComponent (jsString ''undefined'') = Inr ''undefined''"
  by (simp add: jsString_def unreserved_def unreservedSet_def)

lemma encodePair_error: "encodePair nm v = Inl e \<Longrightarrow> e = URIError"
  by (auto simp: encodePair_def encodeValue_def split: sum.splits
           dest: encodeURIComponent_error)

lemma encodePair_returns:
  "(\<exists>x. encodePair (fst p) (snd p) = Inr x) \<longleftrightarrow> wellFormedPair p"
proof (cases "snd p")
  case None
  then show ?thesis
    using encodeURIComponent_returns [of "fst p"]
    by (auto simp: encodePair_def encodeValue_def wellFormedPair_def
          encodeURIComponent_undefined split: sum.splits)
next
  case (Some v)
  then show ?thesis
    using encodeURIComponent_returns [of "fst p"] encodeURIComponent_returns [of v]
    by (auto simp: encodePair_def encodeValue_def wellFormedPair_def split: sum.splits)
qed

lemma renderPairs_error: "renderPairs ps = Inl e \<Longrightarrow> e = URIError"
  by (induction ps) (auto split: sum.splits dest: encodePair_error)

lemma renderPairs_returns:
  "(\<exists>xs. renderPairs ps = Inr xs) \<longleftrightarrow> list_all wellFormedPair ps"
proof (induction ps)
  case Nil
  show ?case by simp
next
  case (Cons p ps)
  show ?case
    using Cons.IH encodePair_returns [of p]
    by (cases "encodePair (fst p) (snd p)"; cases "renderPairs ps") auto
qed

lemma renderPairs_append:
  "renderPairs (xs @ ys) =
     (case renderPairs xs of
        Inl err \<Rightarrow> Inl err
      | Inr a \<Rightarrow> (case renderPairs ys of Inl err \<Rightarrow> Inl err | Inr b \<Rightarrow> Inr (a @ b)))"
  by (induction xs) (simp_all split: sum.splits)

lemma serialize_options_refines:
  "serialize_options H s nm os =
     renderPairs (map (\<lambda>opt. (nm, valueProp (props H s opt)))
                   (filter (\<lambda>opt. selected (props H s opt) = Some True) os))"
  by (induction os) (simp_all split: sum.splits)

lemma serialize_step_refines:
  "serialize_step H s e =
     (case serializeArray_step H s e of Inl err \<Rightarrow> Inl err | Inr ps \<Rightarrow> renderPairs ps)"
  by (simp add: serialize_step_def serializeArray_step_def serialize_options_refines Let_def
           split: option.splits sum.splits)

lemma serializeArray_loop_failed:
  "renderPairs acc = Inl e \<Longrightarrow> serializeArray_loop H s es acc = Inr ps \<Longrightarrow> renderPairs ps = Inl e"
proof (induction es arbitrary: acc)
  case Nil
  then show ?case by simp
next
  case (Cons x es)
  from Cons.prems(2) obtain ps1 where ps1: "serializeArray_step H s x = Inr ps1"
    and rest: "serializeArray_loop H s es (acc @ ps1) = Inr ps"
    by (auto split: sum.splits)
  have "renderPairs (acc @ ps1) = Inl e"
    using Cons.prems(1) by (simp add: renderPairs_append)
  then show ?case
    using rest by (rule Cons.IH)
qed

lemma serialize_loop_refines:
  assumes "renderPairs acc = Inr fe"
  shows "(\<forall>ps. serializeArray_loop H s es acc = Inr ps \<longrightarrow>
            serialize_loop H s es fe = renderPairs ps)
         \<and> (\<forall>err. serializeArray_loop H s es acc = Inl err \<longrightarrow>
              serialize_loop H s es fe = Inl err \<or> serialize_loop H s es fe = Inl URIError)"
  using assms
proof (induction es arbitrary: acc fe)
  case Nil
  then show ?case by simp
next
  case (Cons x es)
  show ?case
  proof (cases "serializeArray_step H s x")
    case (Inl err)
    then show ?thesis by (simp add: serialize_step_refines)
  next
    case (Inr ps1)
    show ?thesis
    proof (cases "renderPairs ps1")
      case (Inl e)
      have e: "e = URIError"
        using Inl by (rule renderPairs_error)
      have ser: "serialize_loop H s (x # es) fe = Inl e"
        using Inr Inl by (simp add: serialize_step_refines)
      have acc: "renderPairs (acc @ ps1) = Inl e"
        using Cons.prems Inl by (simp add: renderPairs_append)
      have "\<forall>ps. serializeArray_loop H s (x # es) acc = Inr ps \<longrightarrow> renderPairs ps = Inl e"
        using Inr serializeArray_loop_failed [OF acc] by simp
      then show ?thesis
        unfolding ser using e by simp
    next
      case (Inr xs)
      have acc: "renderPairs (acc @ ps1) = Inr (fe @ xs)"
        using Cons.prems Inr by (simp add: renderPairs_append)
      have ser: "serialize_loop H s (x # es) fe = serialize_loop H s es (fe @ xs)"
        using \<open>serializeArray_step H s x = Inr ps1\<close> Inr by (simp add: serialize_step_refines)
      have arr: "serializeArray_loop H s (x # es) acc = serializeArray_loop H s es (acc @ ps1)"
        using \<open>serializeArray_step H s x = Inr ps1\<close> by simp
      show ?thesis
        unfolding ser arr by (rule Cons.IH [OF acc])
    qed
  qed
qed

lemma serializeArray_step_eligible:
  assumes "serializeArray_step H s e = Inr ps" and "(nm, v) \<in> set ps"
  shows "name (props H s e) = Some nm \<and> nm \<noteq> [] \<and> disabled (props H s e) \<noteq> Some True
         \<and> typeProp (props H s e) \<notin> set (map Some [''file'', ''reset'', ''submit'', ''button''])"
  using assms
  by (auto simp: serializeArray_step_def Let_def split: option.splits if_splits)

lemma serializeArray_loop_origin:
  assumes "serializeArray_loop H s es acc = Inr ps" and "(nm, v) \<in> set ps"
  shows "(nm, v) \<in> set acc
         \<or> (\<exists>e \<in> set es. \<exists>xs. serializeArray_step H s e = Inr xs \<and> (nm, v) \<in> set xs)"
  using assms
proof (induction es arbitrary: acc)
  case Nil
  then show ?case by simp
next
  case (Cons e es)
  then show ?case
    by (fastforce split: sum.splits)
qed

text \<open>
  C3. For a collection of three controls, in order a text input with name \<open>a\<close> and value
  \<open>hello\<close>, an unchecked checkbox with name \<open>b\<close>, and a checked radio with name \<open>c\<close> and
  value \<open>yes\<close> (the two serialised ones not disabled), \<^verbatim>\<open>serializeArray\<close> returns exactly
  the records (a, hello) and (c, yes) in that order. And whatever the collection, every
  record it returns carries the name of an element of the collection that has a
  non-empty name, is not disabled, and has a type that is none of file, reset, submit,
  button.
\<close>

theorem serializeArray_example_and_eligibility:
  "(nodes q = [x, y, z]
      \<and> name (props H s x) = Some (jsString ''a'') \<and> typeProp (props H s x) = Some ''text''
      \<and> valueProp (props H s x) = Some (jsString ''hello'') \<and> disabled (props H s x) \<noteq> Some True
      \<and> name (props H s y) = Some (jsString ''b'') \<and> typeProp (props H s y) = Some ''checkbox''
      \<and> checked (props H s y) \<noteq> Some True
      \<and> name (props H s z) = Some (jsString ''c'') \<and> typeProp (props H s z) = Some ''radio''
      \<and> checked (props H s z) = Some True \<and> valueProp (props H s z) = Some (jsString ''yes'')
      \<and> disabled (props H s z) \<noteq> Some True
    \<longrightarrow> serializeArray H q s
          = Inr [(jsString ''a'', Some (jsString ''hello'')), (jsString ''c'', Some (jsString ''yes''))])
   \<and> (\<forall>ps nm v. serializeArray H q s = Inr ps \<longrightarrow> (nm, v) \<in> set ps \<longrightarrow>
         (\<exists>e \<in> set (nodes q).
            name (props H s e) = Some nm \<and> nm \<noteq> [] \<and> disabled (props H s e) \<noteq> Some True
            \<and> typeProp (props H s e) \<notin> set (map Some [''file'', ''reset'', ''submit'', ''button''])))"
proof (intro conjI impI allI)
  assume "nodes q = [x, y, z]
      \<and> name (props H s x) = Some (jsString ''a'') \<and> typeProp (props H s x) = Some ''text''
      \<and> valueProp (props H s x) = Some (jsString ''hello'') \<and> disabled (props H s x) \<noteq> Some True
      \<and> name (props H s y) = Some (jsString ''b'') \<and> typeProp (props H s y) = Some ''checkbox''
      \<and> checked (props H s y) \<noteq> Some True
      \<and> name (props H s z) = Some (jsString ''c'') \<and> typeProp (props H s z) = Some ''radio''
      \<and> checked (props H s z) = Some True \<and> valueProp (props H s z) = Some (jsString ''yes'')
      \<and> disabled (props H s z) \<noteq> Some True"
  then show "serializeArray H q s
          = Inr [(jsString ''a'', Some (jsString ''hello'')), (jsString ''c'', Some (jsString ''yes''))]"
    by (simp add: serializeArray_def serializeArray_step_def Let_def)
next
  fix ps nm v
  assume ok: "serializeArray H q s = Inr ps" and mem: "(nm, v) \<in> set ps"
  from ok have "serializeArray_loop H s (nodes q) [] = Inr ps"
    by (simp add: serializeArray_def)
  from serializeArray_loop_origin [OF this mem]
  obtain e xs where e: "e \<in> set (nodes q)"
    and xs: "serializeArray_step H s e = Inr xs" "(nm, v) \<in> set xs"
    by auto
  from serializeArray_step_eligible [OF xs] e
  show "\<exists>e \<in> set (nodes q).
            name (props H s e) = Some nm \<and> nm \<noteq> [] \<and> disabled (props H s e) \<noteq> Some True
            \<and> typeProp (props H s e) \<notin> set (map Some [''file'', ''reset'', ''submit'', ''button''])"
    by blast
qed

theorem serializeArray_example_witness:
  "nq sampleHost (SelElement 0) formPage = Inr (Some \<lparr>nodes = [1, 2, 3]\<rparr>)
   \<and> serializeArray sampleHost \<lparr>nodes = [1, 2, 3]\<rparr> formPage
       = Inr [(jsString ''a'', Some (jsString ''hello'')), (jsString ''c'', Some (jsString ''yes''))]
   \<and> (\<exists>e \<in> set (nodes \<lparr>nodes = [1, 2, 3]\<rparr>).
         name (props sampleHost formPage e) = Some (jsString ''c'') \<and> jsString ''c'' \<noteq> []
         \<and> disabled (props sampleHost formPage e) \<noteq> Some True
         \<and> typeProp (props sampleHost formPage e)
             \<notin> set (map Some [''file'', ''reset'', ''submit'', ''button'']))"
proof -
  have form: "nq sampleHost (SelElement 0) formPage = Inr (Some \<lparr>nodes = [1, 2, 3]\<rparr>)"
    by code_simp
  have pre: "nodes \<lparr>nodes = [1, 2, 3]\<rparr> = [1, 2, 3]
      \<and> name (props sampleHost formPage 1) = Some (jsString ''a'')
      \<and> typeProp (props sampleHost formPage 1) = Some ''text''
      \<and> valueProp (props sampleHost formPage 1) = Some (jsString ''hello'')
      \<and> disabled (props sampleHost formPage 1) \<noteq> Some True
      \<and> name (props sampleHost formPage 2) = Some (jsString ''b'')
      \<and> typeProp (props sampleHost formPage 2) = Some ''checkbox''
      \<and> checked (props sampleHost formPage 2) \<noteq> Some True
      \<and> name (props sampleHost formPage 3) = Some (jsString ''c'')
      \<and> typeProp (props sampleHost formPage 3) = Some ''radio''
      \<and> checked (props sampleHost formPage 3) = Some True
      \<and> valueProp (props sampleHost formPage 3) = Some (jsString ''yes'')
      \<and> disabled (props sampleHost formPage 3) \<noteq> Some True"
    by (simp add: sampleHost_def sampleProps_def formPage_def newNode_def Let_def)
  note inst = serializeArray_example_and_eligibility
    [where q = "\<lparr>nodes = [1, 2, 3]\<rparr>" and H = sampleHost and s = formPage
       and x = 1 and y = 2 and z = 3]
  from inst pre
  have res: "serializeArray sampleHost \<lparr>nodes = [1, 2, 3]\<rparr> formPage
               = Inr [(jsString ''a'', Some (jsString ''hello'')), (jsString ''c'', Some (jsString ''yes''))]"
    by blast
  from inst res
  have "\<exists>e \<in> set (nodes \<lparr>nodes = [1, 2, 3]\<rparr>).
         name (props sampleHost formPage e) = Some (jsString ''c'') \<and> jsString ''c'' \<noteq> []
         \<and> disabled (props sampleHost formPage e) \<noteq> Some True
         \<and> typeProp (props sampleHost formPage e)
             \<notin> set (map Some [''file'', ''reset'', ''submit'', ''button''])"
    by (metis list.set_intros(1,2))
  with form res show ?thesis by blast
qed

text \<open>
  C4. \<^verbatim>\<open>serialize\<close> walks the collection as \<^verbatim>\<open>serializeArray\<close> does and encodes what
  \<^verbatim>\<open>serializeArray\<close> records. When \<^verbatim>\<open>serializeArray\<close> returns records in which no name
  and no value has a surrogate outside a pair, \<^verbatim>\<open>serialize\<close> returns these records,
  each written as percent-encoded name, \<^verbatim>\<open>=\<close>, percent-encoded value, joined with
  \<^verbatim>\<open>&\<close> in the same order. When a name or a value of a record has a surrogate outside
  a pair, \<^verbatim>\<open>serialize\<close> raises \<^verbatim>\<open>URIError\<close> although \<^verbatim>\<open>serializeArray\<close> returns. When
  \<^verbatim>\<open>serializeArray\<close> raises (iterating the options of an element that has none),
  \<^verbatim>\<open>serialize\<close> raises too, the same error or the \<^verbatim>\<open>URIError\<close> of an earlier element.
\<close>

theorem serialize_agrees_with_serializeArray:
  "(\<forall>ps. serializeArray H q s = Inr ps \<longrightarrow>
      serialize H q s
        = (case renderPairs ps of Inl err \<Rightarrow> Inl err | Inr xs \<Rightarrow> Inr (join ''&'' xs))
      \<and> (list_all wellFormedPair ps \<longrightarrow> (\<exists>xs. renderPairs ps = Inr xs))
      \<and> (\<not> list_all wellFormedPair ps \<longrightarrow> serialize H q s = Inl URIError))
   \<and> (\<forall>err. serializeArray H q s = Inl err \<longrightarrow>
        serialize H q s = Inl err \<or> serialize H q s = Inl URIError)"
proof -
  have "renderPairs [] = Inr []"
    by simp
  note loop = serialize_loop_refines [OF this, of H s "nodes q"]
  show ?thesis
  proof (intro conjI allI impI)
    fix ps
    assume a: "serializeArray H q s = Inr ps"
    then have "serialize_loop H s (nodes q) [] = renderPairs ps"
      using loop by (simp add: serializeArray_def)
    then show eq: "serialize H q s
        = (case renderPairs ps of Inl err \<Rightarrow> Inl err | Inr xs \<Rightarrow> Inr (join ''&'' xs))"
      by (simp add: serialize_def)
    {
      assume "list_all wellFormedPair ps"
      then show "\<exists>xs. renderPairs ps = Inr xs"
        by (simp add: renderPairs_returns)
    }
    {
      assume "\<not> list_all wellFormedPair ps"
      then have "\<not> (\<exists>xs. renderPairs ps = Inr xs)"
        by (simp add: renderPairs_returns)
      then obtain e where e: "renderPairs ps = Inl e"
        by (cases "renderPairs ps") auto
      then have "e = URIError"
        by (rule renderPairs_error)
      with e eq show "serialize H q s = Inl URIError"
        by simp
    }
  next
    fix err
    assume "serializeArray H q s = Inl err"
    then have "serialize_loop H s (nodes q) [] = Inl err
               \<or> serialize_loop H s (nodes q) [] = Inl URIError"
      using loop by (simp add: serializeArray_def)
    then show "serialize H q s = Inl err \<or> serialize H q s = Inl URIError"
      by (auto simp: serialize_def)
  qed
qed

theorem serialize_agrees_witness:
  "serializeArray (scriptedHost 1 (valueProp_update (\<lambda>v. Some [0xD83D, 0xDE00]))) \<lparr>nodes = [1, 2]\<rparr> searchPage
     = Inr [(jsString ''q'', Some [0xD83D, 0xDE00]),
            (jsString ''a b'', Some (jsString (''x&y=z '' @ [CHR 0xE9])))]
   \<and> list_all wellFormedPair
        [(jsString ''q'', Some [0xD83D, 0xDE00]),
         (jsString ''a b'', Some (jsString (''x&y=z '' @ [CHR 0xE9])))]
   \<and> serialize (scriptedHost 1 (valueProp_update (\<lambda>v. Some [0xD83D, 0xDE00]))) \<lparr>nodes = [1, 2]\<rparr> searchPage
       = Inr ''q=%F0%9F%98%80&a%20b=x%26y%3Dz%20%C3%A9''
   \<and> serializeArray (scriptedHost 2 (typeProp_update (\<lambda>v. Some ''select-multiple''))) \<lparr>nodes = [1, 2]\<rparr> searchPage
       = Inl TypeError
   \<and> serialize (scriptedHost 2 (typeProp_update (\<lambda>v. Some ''select-multiple''))) \<lparr>nodes = [1, 2]\<rparr> searchPage
       = Inl TypeError
   \<and> serializeArray (scriptedHost 1 (valueProp_update (\<lambda>v. Some [0xDE00]))) \<lparr>nodes = [1]\<rparr> searchPage
       = Inr [(jsString ''q'', Some [0xDE00])]
   \<and> \<not> list_all wellFormedPair [(jsString ''q'', Some [0xDE00])]
   \<and> serialize (scriptedHost 1 (valueProp_update (\<lambda>v. Some [0xDE00]))) \<lparr>nodes = [1]\<rparr> searchPage
       = Inl URIError"
proof -
  let ?L = "scriptedHost 1 (valueProp_update (\<lambda>v. Some [0xDE00]))"
  have c: "serializeArray ?L \<lparr>nodes = [1]\<rparr> searchPage = Inr [(jsString ''q'', Some [0xDE00])]"
    by (simp add: serializeArray_def serializeArray_step_def scriptedHost_def sampleHost_def
          sampleProps_def searchPage_def newNode_def Let_def)
  have nw: "\<not> list_all wellFormedPair [(jsString ''q'', Some [0xDE00])]"
    by (simp add: wellFormedPair_def isLeadingSurrogate_def isTrailingSurrogate_def)
  note inst3 = serialize_agrees_with_serializeArray [of ?L "\<lparr>nodes = [1]\<rparr>" searchPage]
  have lone: "serialize ?L \<lparr>nodes = [1]\<rparr> searchPage = Inl URIError"
    using inst3 c nw by blast
  let ?H = "scriptedHost 1 (valueProp_update (\<lambda>v. Some [0xD83D, 0xDE00]))"
  let ?K = "scriptedHost 2 (typeProp_update (\<lambda>v. Some ''select-multiple''))"
  let ?ps = "[(jsString ''q'', Some [0xD83D, 0xDE00]),
              (jsString ''a b'', Some (jsString (''x&y=z '' @ [CHR 0xE9])))]"
  have a: "serializeArray ?H \<lparr>nodes = [1, 2]\<rparr> searchPage = Inr ?ps"
    by (simp add: serializeArray_def serializeArray_step_def scriptedHost_def sampleHost_def
          sampleProps_def searchPage_def newNode_def Let_def)
  have w: "list_all wellFormedPair ?ps"
    by (simp add: wellFormedPair_def jsString_def isLeadingSurrogate_def isTrailingSurrogate_def)
  have r: "renderPairs ?ps = Inr [''q=%F0%9F%98%80'', ''a%20b=x%26y%3Dz%20%C3%A9'']"
    by (simp add: encodePair_def encodeValue_def jsString_def unreserved_def unreservedSet_def
          isLeadingSurrogate_def isTrailingSurrogate_def escape_def utf8_def pctByte_def)
  have b: "serializeArray ?K \<lparr>nodes = [1, 2]\<rparr> searchPage = Inl TypeError"
    by (simp add: serializeArray_def serializeArray_step_def scriptedHost_def sampleHost_def
          sampleProps_def searchPage_def newNode_def Let_def)
  have u: "serialize ?K \<lparr>nodes = [1, 2]\<rparr> searchPage \<noteq> Inl URIError"
    by (simp add: serialize_def serialize_step_def scriptedHost_def sampleHost_def
          sampleProps_def searchPage_def newNode_def Let_def encodePair_def encodeValue_def
          jsString_def unreserved_def unreservedSet_def)
  note inst = serialize_agrees_with_serializeArray [of ?H "\<lparr>nodes = [1, 2]\<rparr>" searchPage]
  note inst2 = serialize_agrees_with_serializeArray [of ?K "\<lparr>nodes = [1, 2]\<rparr>" searchPage]
  have "serialize ?H \<lparr>nodes = [1, 2]\<rparr> searchPage = Inr ''q=%F0%9F%98%80&a%20b=x%26y%3Dz%20%C3%A9''"
    using inst a r by simp
  moreover have "serialize ?K \<lparr>nodes = [1, 2]\<rparr> searchPage = Inl TypeError"
    using inst2 b u by blast
  ultimately show ?thesis
    using a w b c nw lone by blast
qed

text \<open>
  The statement for every collection does not hold. The user has typed a single leading
  surrogate (code unit D83D) into the text input \<open>a\<close> of the form of C3:
  \<^verbatim>\<open>serializeArray\<close> returns the record, \<^verbatim>\<open>serialize\<close> raises \<^verbatim>\<open>URIError\<close> and returns
  no string.
\<close>

theorem serialize_lone_surrogate_counterexample:
  "serializeArray (scriptedHost 1 (valueProp_update (\<lambda>v. Some [0xD83D]))) \<lparr>nodes = [1, 2, 3]\<rparr> formPage
     = Inr [(jsString ''a'', Some [0xD83D]), (jsString ''c'', Some (jsString ''yes''))]
   \<and> serialize (scriptedHost 1 (valueProp_update (\<lambda>v. Some [0xD83D]))) \<lparr>nodes = [1, 2, 3]\<rparr> formPage
       = Inl URIError"
proof -
  have "serializeArray (scriptedHost 1 (valueProp_update (\<lambda>v. Some [0xD83D]))) \<lparr>nodes = [1, 2, 3]\<rparr> formPage
     = Inr [(jsString ''a'', Some [0xD83D]), (jsString ''c'', Some (jsString ''yes''))]"
    by (simp add: serializeArray_def serializeArray_step_def scriptedHost_def sampleHost_def
          sampleProps_def formPage_def newNode_def Let_def)
  moreover have "serialize (scriptedHost 1 (valueProp_update (\<lambda>v. Some [0xD83D]))) \<lparr>nodes = [1, 2, 3]\<rparr> formPage
       = Inl URIError"
    by (simp add: serialize_def serialize_step_def scriptedHost_def sampleHost_def
          sampleProps_def formPage_def newNode_def Let_def encodePair_def encodeValue_def
          jsString_def unreserved_def unreservedSet_def isLeadingSurrogate_def
          isTrailingSurrogate_def)
  ultimately show ?thesis by simp
qed

section \<open>Loops over the collection\<close>

lemma returnThis_Inr: "returnThis q (Inr u, s) = (Inr q, s)"
  by (simp add: returnThis_def andThen_def)

lemma fst_returnThis: "fst (returnThis q r) = (case fst r of Inl e \<Rightarrow> Inl e | Inr u \<Rightarrow> Inr q)"
  by (cases r) (auto simp: returnThis_def andThen_def split: sum.splits)

lemma snd_returnThis: "snd (returnThis q r) = snd r"
  by (cases r) (auto simp: returnThis_def andThen_def split: sum.splits)

lemma forEach_updNode:
  assumes body: "\<And>n s. f n s = (Inr (), updNode n g s)"
    and idem: "\<And>x. g (g x) = g x"
  shows "forEach f ns s =
           (Inr (), s\<lparr>store := (\<lambda>m. if m \<in> set ns then g (store s m) else store s m)\<rparr>)"
proof (induction ns arbitrary: s)
  case Nil
  show ?case by simp
next
  case (Cons n ns)
  have "forEach f (n # ns) s = forEach f ns (updNode n g s)"
    by (simp add: body)
  also have "\<dots> = (Inr (), (updNode n g s)\<lparr>store :=
      (\<lambda>m. if m \<in> set ns then g (store (updNode n g s) m) else store (updNode n g s) m)\<rparr>)"
    by (rule Cons.IH)
  also have "(updNode n g s)\<lparr>store :=
      (\<lambda>m. if m \<in> set ns then g (store (updNode n g s) m) else store (updNode n g s) m)\<rparr>
      = s\<lparr>store := (\<lambda>m. if m \<in> set (n # ns) then g (store s m) else store s m)\<rparr>"
    by (auto simp: updNode_def idem fun_eq_iff)
  finally show ?case .
qed

lemma parentNode_remove_step:
  "fst (remove_step n s) = Inr ()
   \<and> parentNode (store (snd (remove_step n s)) m) = (if m = n then None else parentNode (store s m))"
  by (auto simp: remove_step_def removeChild_def updNode_def split: option.splits)

lemma forEach_remove_step:
  "fst (forEach remove_step ns s) = Inr ()
   \<and> parentNode (store (snd (forEach remove_step ns s)) m)
       = (if m \<in> set ns then None else parentNode (store s m))"
proof (induction ns arbitrary: s)
  case Nil
  show ?case by simp
next
  case (Cons n ns)
  obtain s1 where s1: "remove_step n s = (Inr (), s1)"
    using parentNode_remove_step [of n s] by (cases "remove_step n s") auto
  have p1: "parentNode (store s1 m) = (if m = n then None else parentNode (store s m))"
    using parentNode_remove_step [of n s m] s1 by simp
  show ?case
    using Cons.IH [of s1] s1 p1 by auto
qed

lemma forEach_cases:
  "(\<exists>e s1. forEach f ns s = (Inl e, s1)) \<or> (\<exists>s1. forEach f ns s = (Inr (), s1))"
  by (cases "forEach f ns s") (metis old.unit.exhaust sum.exhaust_sel surj_pair sumE fst_conv)

lemma sameMembers_returnThis: "sameMembers q (fst (returnThis q r))"
  by (simp add: sameMembers_def fst_returnThis split: sum.splits)

lemma sameMembersGS_andThen:
  "sameMembersGS q (fst (andThen r (\<lambda>u s1. (Inr (This q), s1))))"
  by (cases r) (auto simp: sameMembersGS_def andThen_def split: sum.splits)

lemma fst_forEach_total:
  assumes "\<And>n s. fst (f n s) = Inr ()"
  shows "fst (forEach f ns s) = Inr ()"
proof (induction ns arbitrary: s)
  case Nil
  show ?case by simp
next
  case (Cons n ns)
  obtain s1 where "f n s = (Inr (), s1)"
    using assms [of n s] by (cases "f n s") auto
  then show ?case using Cons.IH by simp
qed

lemma map_of_setAttr_same: "map_of (setAttr k v as) k = Some v"
  by (induction as) auto

lemma setAttr_idem: "setAttr k v (setAttr k v as) = setAttr k v as"
  by (induction as) auto

lemma forEach_setAttribute:
  assumes "validAttributeName H a"
  shows "forEach (\<lambda>n. setAttribute H n a v) ns s =
           (Inr (), s\<lparr>store := (\<lambda>m. if m \<in> set ns
              then (store s m)\<lparr>attributes := setAttr (toLowerCase a) (ToString v) (attributes (store s m))\<rparr>
              else store s m)\<rparr>)"
  by (rule forEach_updNode [where g = "\<lambda>nd. nd\<lparr>attributes := setAttr (toLowerCase a) (ToString v) (attributes nd)\<rparr>", simplified])
     (simp_all add: setAttribute_def assms setAttr_idem)

lemma forEach_setAttribute_invalid:
  assumes "\<not> validAttributeName H a" and "ns \<noteq> []"
  shows "forEach (\<lambda>n. setAttribute H n a v) ns s = (Inl InvalidCharacterError, s)"
  using assms by (cases ns) (simp_all add: setAttribute_def)

section \<open>The empty collection\<close>

text \<open>
  C6. On an empty collection, \<^verbatim>\<open>attr(name)\<close> returns null; \<^verbatim>\<open>addClass\<close> and every other
  mutator return the same, still empty, collection and leave the document as it is
  (\<^verbatim>\<open>one\<close> creates its closure and registers it nowhere); the getters of \<^verbatim>\<open>html\<close> and
  \<^verbatim>\<open>text\<close> return null, \<^verbatim>\<open>serialize\<close> the empty string and \<^verbatim>\<open>serializeArray\<close> the
  empty array. No method raises. A selector that matches nothing resolves to the empty
  collection.
\<close>

theorem empty_collection_safe:
  "attr H \<lparr>nodes = []\<rparr> a v s = (Inr (if v = JUndefined then Got None else This \<lparr>nodes = []\<rparr>), s)
   \<and> html H \<lparr>nodes = []\<rparr> v s = (Inr (if v = JUndefined then Got None else This \<lparr>nodes = []\<rparr>), s)
   \<and> text_nq H \<lparr>nodes = []\<rparr> v s = (Inr (if v = JUndefined then Got None else This \<lparr>nodes = []\<rparr>), s)
   \<and> addClass \<lparr>nodes = []\<rparr> c s = (Inr \<lparr>nodes = []\<rparr>, s)
   \<and> removeClass \<lparr>nodes = []\<rparr> c s = (Inr \<lparr>nodes = []\<rparr>, s)
   \<and> toggleClass \<lparr>nodes = []\<rparr> c s = (Inr \<lparr>nodes = []\<rparr>, s)
   \<and> after H \<lparr>nodes = []\<rparr> inp attrs s = (Inr \<lparr>nodes = []\<rparr>, s)
   \<and> append_nq H \<lparr>nodes = []\<rparr> inp attrs s = (Inr \<lparr>nodes = []\<rparr>, s)
   \<and> before H \<lparr>nodes = []\<rparr> inp attrs s = (Inr \<lparr>nodes = []\<rparr>, s)
   \<and> prepend H \<lparr>nodes = []\<rparr> inp attrs s = (Inr \<lparr>nodes = []\<rparr>, s)
   \<and> on \<lparr>nodes = []\<rparr> ev cb opts s = (Inr \<lparr>nodes = []\<rparr>, s)
   \<and> off \<lparr>nodes = []\<rparr> ev cb opts s = (Inr \<lparr>nodes = []\<rparr>, s)
   \<and> one \<lparr>nodes = []\<rparr> ev h opts s = (Inr \<lparr>nodes = []\<rparr>, s\<lparr>nextFn := Suc (nextFn s)\<rparr>)
   \<and> remove \<lparr>nodes = []\<rparr> s = (Inr \<lparr>nodes = []\<rparr>, s)
   \<and> serialize H \<lparr>nodes = []\<rparr> s = Inr []
   \<and> serializeArray H \<lparr>nodes = []\<rparr> s = Inr []
   \<and> (querySelectorAll H s sel = Inr [] \<longrightarrow> nq H (SelString sel) s = Inr (Some \<lparr>nodes = []\<rparr>))"
  by (simp add: attr_def html_def text_nq_def addClass_def removeClass_def toggleClass_def
        after_def append_nq_def before_def prepend_def on_def off_def one_def remove_def
        serialize_def serializeArray_def nq_def Query_def returnThis_Inr andThen_Inr)

theorem empty_collection_safe_witness:
  "querySelectorAll sampleHost detachedPage ''span'' = Inr []
   \<and> nq sampleHost (SelString ''span'') detachedPage = Inr (Some \<lparr>nodes = []\<rparr>)
   \<and> attr sampleHost \<lparr>nodes = []\<rparr> ''x'' JUndefined detachedPage = (Inr (Got None), detachedPage)
   \<and> addClass \<lparr>nodes = []\<rparr> ''y'' detachedPage = (Inr \<lparr>nodes = []\<rparr>, detachedPage)"
proof -
  have none: "querySelectorAll sampleHost detachedPage ''span'' = Inr []"
    by code_simp
  show ?thesis
    using empty_collection_safe
      [of sampleHost "''x''" JUndefined detachedPage "''y''" _ _ _ _ _ _ "''span''"] none
    by simp
qed

section \<open>Membership of a collection\<close>

text \<open>
  C9. For every collection and every method that returns the collection (the class
  methods, the setters of \<^verbatim>\<open>attr\<close>, \<^verbatim>\<open>html\<close> and \<^verbatim>\<open>text\<close>, the insertion family,
  \<^verbatim>\<open>on\<close>, \<^verbatim>\<open>off\<close>, \<^verbatim>\<open>one\<close>, \<^verbatim>\<open>remove\<close>), the collection after the call has the
  member list it had before: the same references in the same order. \<^verbatim>\<open>remove\<close> detaches
  every member from its parent and still returns the collection with all its members.
  (The getters and the two serialisations return no collection and have none to change.)
\<close>

theorem membership_unchanged:
  "sameMembers q (fst (addClass q c s))
   \<and> sameMembers q (fst (removeClass q c s))
   \<and> sameMembers q (fst (toggleClass q c s))
   \<and> sameMembersGS q (fst (attr H q a v s))
   \<and> sameMembersGS q (fst (html H q v s))
   \<and> sameMembersGS q (fst (text_nq H q v s))
   \<and> sameMembers q (fst (after H q inp attrs s))
   \<and> sameMembers q (fst (append_nq H q inp attrs s))
   \<and> sameMembers q (fst (before H q inp attrs s))
   \<and> sameMembers q (fst (prepend H q inp attrs s))
   \<and> fst (on q ev cb opts s) = Inr q
   \<and> fst (off q ev cb opts s) = Inr q
   \<and> fst (one q ev h opts s) = Inr q
   \<and> fst (remove q s) = Inr q
   \<and> (\<forall>n \<in> set (nodes q). parentNode (store (snd (remove q s)) n) = None)"
proof -
  have cls: "sameMembers q (fst (addClass q c s))" "sameMembers q (fst (removeClass q c s))"
    "sameMembers q (fst (toggleClass q c s))"
    by (simp_all add: addClass_def removeClass_def toggleClass_def sameMembers_returnThis)
  have gs: "sameMembersGS q (fst (attr H q a v s))" "sameMembersGS q (fst (html H q v s))"
    "sameMembersGS q (fst (text_nq H q v s))"
    by (simp_all add: attr_def html_def text_nq_def sameMembersGS_andThen)
       (simp_all add: sameMembersGS_def)
  have ins: "sameMembers q (fst (after H q inp attrs s))"
    "sameMembers q (fst (append_nq H q inp attrs s))"
    "sameMembers q (fst (before H q inp attrs s))"
    "sameMembers q (fst (prepend H q inp attrs s))"
    by (simp_all add: after_def append_nq_def before_def prepend_def sameMembers_returnThis)
  have ev: "fst (on q ev cb opts s) = Inr q" "fst (off q ev cb opts s) = Inr q"
    "fst (one q ev h opts s) = Inr q"
    by (simp_all add: on_def off_def one_def fst_returnThis fst_forEach_total
          addEventListener_def removeEventListener_def)
  have rm: "fst (remove q s) = Inr q"
    "\<forall>n \<in> set (nodes q). parentNode (store (snd (remove q s)) n) = None"
    by (simp_all add: remove_def fst_returnThis snd_returnThis forEach_remove_step)
  from cls gs ins ev rm show ?thesis by blast
qed

theorem membership_unchanged_witness:
  "fst (remove \<lparr>nodes = [1, 2]\<rparr> siblingsPage) = Inr \<lparr>nodes = [1, 2]\<rparr>
   \<and> parentNode (store siblingsPage 1) = Some 0
   \<and> parentNode (store (snd (remove \<lparr>nodes = [1, 2]\<rparr> siblingsPage)) 1) = None
   \<and> parentNode (store (snd (remove \<lparr>nodes = [1, 2]\<rparr> siblingsPage)) 2) = None
   \<and> sameMembers \<lparr>nodes = [1, 2]\<rparr> (fst (addClass \<lparr>nodes = [1, 2]\<rparr> ''y'' siblingsPage))"
proof -
  have p: "parentNode (store siblingsPage 1) = Some 0"
    by code_simp
  show ?thesis
    using membership_unchanged [of "\<lparr>nodes = [1, 2]\<rparr>" "''y''" siblingsPage] p
    by simp
qed

section \<open>Attributes\<close>

text \<open>
  C8. For a collection of one element, an attribute name that the host accepts and a
  value \<open>v\<close> that is given (not \<^verbatim>\<open>undefined\<close>, which is an absent value), \<^verbatim>\<open>attr(n, v)\<close>
  returns the collection and \<^verbatim>\<open>attr(n)\<close> then returns \<open>v\<close> converted to a string.
\<close>

theorem attr_write_then_read:
  assumes "validAttributeName H a" and "v \<noteq> JUndefined"
  shows "fst (attr H \<lparr>nodes = [e]\<rparr> a v s) = Inr (This \<lparr>nodes = [e]\<rparr>)
         \<and> attr H \<lparr>nodes = [e]\<rparr> a JUndefined (snd (attr H \<lparr>nodes = [e]\<rparr> a v s))
             = (Inr (Got (Some (ToString v))), snd (attr H \<lparr>nodes = [e]\<rparr> a v s))"
proof -
  have "forEach (\<lambda>n. setAttribute H n a v) [e] s =
           (Inr (), s\<lparr>store := (\<lambda>m. if m \<in> set [e]
              then (store s m)\<lparr>attributes := setAttr (toLowerCase a) (ToString v) (attributes (store s m))\<rparr>
              else store s m)\<rparr>)"
    using assms(1) by (rule forEach_setAttribute)
  with assms(2) show ?thesis
    by (simp add: attr_def andThen_Inr getAttribute_def map_of_setAttr_same del: forEach.simps)
qed

theorem attr_write_then_read_witness:
  "validAttributeName sampleHost ''title'' \<and> JNum 42 \<noteq> JUndefined
   \<and> fst (attr sampleHost \<lparr>nodes = [0]\<rparr> ''title'' (JNum 42) detachedPage) = Inr (This \<lparr>nodes = [0]\<rparr>)
   \<and> fst (attr sampleHost \<lparr>nodes = [0]\<rparr> ''title'' JUndefined
            (snd (attr sampleHost \<lparr>nodes = [0]\<rparr> ''title'' (JNum 42) detachedPage)))
        = Inr (Got (Some ''42''))"
proof -
  have v: "validAttributeName sampleHost ''title''"
    by code_simp
  have t: "ToString (JNum 42) = ''42''"
    by code_simp
  show ?thesis
    using attr_write_then_read [OF v, of "JNum 42" 0 detachedPage] v t by simp
qed

text \<open>
  C10. Whether \<^verbatim>\<open>attr\<close> reads or writes is decided by whether its second argument is
  \<^verbatim>\<open>undefined\<close>, and by nothing else. With any other value, null and the other falsy
  values included, it never returns an attribute value: with a name the host accepts
  it returns the collection, and every element then has the attribute with the value
  converted to a string (\<open>null\<close> gives the string \<open>null\<close>); with a name the host refuses,
  on a non-empty collection, the host's error is raised. With \<^verbatim>\<open>undefined\<close> it returns
  the attribute of the first element, or null for the empty collection, and changes
  nothing.
\<close>

theorem attr_dispatch_on_undefined:
  "(v \<noteq> JUndefined \<longrightarrow> (\<forall>x. fst (attr H q a v s) \<noteq> Inr (Got x)))
   \<and> (v \<noteq> JUndefined \<and> validAttributeName H a \<longrightarrow>
        fst (attr H q a v s) = Inr (This q)
        \<and> (\<forall>n \<in> set (nodes q). getAttribute n a (snd (attr H q a v s)) = Some (ToString v)))
   \<and> (v \<noteq> JUndefined \<and> \<not> validAttributeName H a \<and> nodes q \<noteq> [] \<longrightarrow>
        attr H q a v s = (Inl InvalidCharacterError, s))
   \<and> attr H q a JUndefined s
       = (Inr (Got (if length (nodes q) \<noteq> 0 then getAttribute (nodes q ! 0) a s else None)), s)
   \<and> ToString JNull = ''null''"
proof (intro conjI impI allI)
  fix x
  assume "v \<noteq> JUndefined"
  then show "fst (attr H q a v s) \<noteq> Inr (Got x)"
    using forEach_cases [of "\<lambda>n. setAttribute H n a v" "nodes q" s]
    by (auto simp: attr_def andThen_def)
next
  assume a: "v \<noteq> JUndefined \<and> validAttributeName H a"
  then show "fst (attr H q a v s) = Inr (This q)"
    by (simp add: attr_def forEach_setAttribute andThen_Inr)
  from a show "\<forall>n \<in> set (nodes q). getAttribute n a (snd (attr H q a v s)) = Some (ToString v)"
    by (simp add: attr_def forEach_setAttribute andThen_Inr getAttribute_def map_of_setAttr_same)
next
  assume "v \<noteq> JUndefined \<and> \<not> validAttributeName H a \<and> nodes q \<noteq> []"
  then show "attr H q a v s = (Inl InvalidCharacterError, s)"
    by (simp add: attr_def forEach_setAttribute_invalid andThen_Inl)
next
  show "attr H q a JUndefined s
       = (Inr (Got (if length (nodes q) \<noteq> 0 then getAttribute (nodes q ! 0) a s else None)), s)"
    by (simp add: attr_def)
next
  show "ToString JNull = ''null''" by simp
qed

theorem attr_dispatch_witness:
  "JNull \<noteq> JUndefined \<and> validAttributeName sampleHost ''title''
   \<and> fst (attr sampleHost \<lparr>nodes = [1, 2]\<rparr> ''title'' JNull siblingsPage) = Inr (This \<lparr>nodes = [1, 2]\<rparr>)
   \<and> getAttribute 1 ''title'' (snd (attr sampleHost \<lparr>nodes = [1, 2]\<rparr> ''title'' JNull siblingsPage)) = Some ''null''
   \<and> getAttribute 2 ''title'' (snd (attr sampleHost \<lparr>nodes = [1, 2]\<rparr> ''title'' JNull siblingsPage)) = Some ''null''
   \<and> attr sampleHost \<lparr>nodes = [1, 2]\<rparr> ''title'' JUndefined siblingsPage = (Inr (Got None), siblingsPage)"
proof -
  have v: "validAttributeName sampleHost ''title''"
    by code_simp
  have g: "getAttribute 1 ''title'' siblingsPage = None"
    by code_simp
  show ?thesis
    using attr_dispatch_on_undefined [of JNull sampleHost "\<lparr>nodes = [1, 2]\<rparr>" "''title''" siblingsPage] v g
    by simp
qed

section \<open>One-shot listeners\<close>















lemma after_trigger_quiet:
  assumes "\<forall>m. \<forall>l \<in> set (listeners (store s m)). fst l \<noteq> ev"
  shows "\<forall>m. \<forall>l \<in> set (listeners (store (s\<lparr>nextFn := k, calls := cs\<rparr>) m)). fst l \<noteq> ev"
  using assms by simp





text \<open>
  A handler that raises: the closure ends at \<^verbatim>\<open>handler.call\<close> and stays registered on
  every element. On the two sibling elements of \<open>siblingsPage\<close>, with the handler 7
  raising, a click at element 1 and a click at element 2 call the handler twice, and
  both elements still carry the closure.
\<close>

lemma one_raising_handler_stays:
  "calls (dispatchEvent 2 ''click'' True (dispatchEvent 1 ''click'' True
            (snd (one \<lparr>nodes = [1, 2]\<rparr> ''click'' 7 None
                    (siblingsPage\<lparr>raising := (\<lambda>h. h = 7)\<rparr>)))))
     = [(7, 1, ''click''), (7, 2, ''click'')]
   \<and> listeners (store (dispatchEvent 2 ''click'' True (dispatchEvent 1 ''click'' True
            (snd (one \<lparr>nodes = [1, 2]\<rparr> ''click'' 7 None
                    (siblingsPage\<lparr>raising := (\<lambda>h. h = 7)\<rparr>))))) 1)
       = [(''click'', OneTimeHandler 0 7 \<lparr>nodes = [1, 2]\<rparr> None, False)]"
  by code_simp




section \<open>Insertion next to an element without a parent\<close>

lemma parentsBelow_refl: "parentsBelow k s s"
  by (simp add: parentsBelow_def)

lemma parentsBelow_trans: "parentsBelow k s s1 \<Longrightarrow> parentsBelow k s1 s2 \<Longrightarrow> parentsBelow k s s2"
  by (simp add: parentsBelow_def)

lemma build_frame:
  "nextId s \<le> nextId (snd (build p t s)) \<and> nextId s \<le> fst (build p t s)
     \<and> (\<forall>m < nextId s. store (snd (build p t s)) m = store s m)"
  "nextId s \<le> nextId (snd (buildAll p ts s)) \<and> (\<forall>c \<in> set (fst (buildAll p ts s)). nextId s \<le> c)
     \<and> (\<forall>m < nextId s. store (snd (buildAll p ts s)) m = store s m)"
proof (induction p t s and p ts s rule: build_buildAll.induct)
  case (1 p d s)
  show ?case by simp
next
  case (2 p nm as ts s)
  define s1 where "s1 = s\<lparr>store := (store s)(nextId s := (newNode ElementNode nm as [])\<lparr>parentNode := p\<rparr>),
                 nextId := Suc (nextId s)\<rparr>"
  have ih: "nextId s1 \<le> nextId (snd (buildAll (Some (nextId s)) ts s1))
     \<and> (\<forall>m < nextId s1. store (snd (buildAll (Some (nextId s)) ts s1)) m = store s1 m)"
    using "2.IH" [of "nextId s" s1] by (simp add: s1_def)
  have n1: "nextId s1 = Suc (nextId s)" by (simp add: s1_def)
  have st1: "\<And>m. m < nextId s \<Longrightarrow> store s1 m = store s m" by (simp add: s1_def)
  obtain cs s2 where b: "buildAll (Some (nextId s)) ts s1 = (cs, s2)"
    by (cases "buildAll (Some (nextId s)) ts s1")
  have r: "build p (Elem nm as ts) s = (nextId s, updNode (nextId s) (\<lambda>nd. nd\<lparr>childNodes := cs\<rparr>) s2)"
    using b by (simp add: Let_def s1_def)
  from ih b n1 st1 show ?case
    unfolding r by (simp add: updNode_def)
next
  case (3 p s)
  show ?case by simp
next
  case (4 p t ts s)
  obtain c s1 where b1: "build p t s = (c, s1)" by (cases "build p t s")
  obtain cs s2 where b2: "buildAll p ts s1 = (cs, s2)" by (cases "buildAll p ts s1")
  have h1: "nextId s \<le> nextId s1 \<and> nextId s \<le> c \<and> (\<forall>m < nextId s. store s1 m = store s m)"
    using "4.IH"(1) b1 by simp
  have h2: "nextId s1 \<le> nextId s2 \<and> (\<forall>c \<in> set cs. nextId s1 \<le> c)
     \<and> (\<forall>m < nextId s1. store s2 m = store s1 m)"
    using "4.IH"(2) [of "(c, s1)" c s1] b1 b2 by simp
  have r: "buildAll p (t # ts) s = (c # cs, s2)"
    using b1 b2 by simp
  from h1 h2 show ?case
    unfolding r by auto
qed

lemma fold_setParent_other:
  assumes "m \<notin> set cs"
  shows "store (fold (\<lambda>c. updNode c (\<lambda>nd. nd\<lparr>parentNode := v\<rparr>)) cs s) m = store s m"
  using assms by (induction cs arbitrary: s) (auto simp: updNode_def)

lemma fold_setParent_fields:
  "nextId (fold (\<lambda>c. updNode c (\<lambda>nd. nd\<lparr>parentNode := v\<rparr>)) cs s) = nextId s"
  by (induction cs arbitrary: s) (auto simp: updNode_def)

lemma insertNodes_parentsBelow:
  assumes "\<forall>c \<in> set cs. k \<le> c"
  shows "parentsBelow k s (insertNodes p i cs s)"
proof -
  have "\<And>m. m < k \<Longrightarrow> m \<notin> set cs"
    using assms by auto
  then show ?thesis
    by (auto simp: parentsBelow_def insertNodes_def updNode_def fold_setParent_other fold_setParent_fields)
qed

lemma buildAll_parentsBelow:
  assumes "k \<le> nextId s"
  shows "parentsBelow k s (snd (buildAll p ts s)) \<and> (\<forall>c \<in> set (fst (buildAll p ts s)). k \<le> c)"
  using build_frame(2) [of s p ts] assms by (fastforce simp: parentsBelow_def)

lemma insertAdjacentHTML_parentsBelow:
  assumes "k \<le> nextId s"
  shows "parentsBelow k s (snd (insertAdjacentHTML H n pos markup s))"
proof -
  have key: "parentsBelow k s (insertNodes p i cs s1)" if "buildAll None ts s = (cs, s1)"
    for p i ts cs s1
    using buildAll_parentsBelow [OF assms, of None ts] that
      insertNodes_parentsBelow [of cs k s1 p i] parentsBelow_trans [of k s s1]
    by simp
  show ?thesis
    unfolding insertAdjacentHTML_def
    by (auto simp: parentsBelow_refl Let_def split: option.splits prod.splits intro: key)
qed

lemma setAttribute_parentsBelow: "parentsBelow k s (snd (setAttribute H n a v s))"
  by (simp add: setAttribute_def parentsBelow_def updNode_def)

lemma forEach_parentsBelow:
  assumes step: "\<And>x s. k \<le> nextId s \<Longrightarrow> parentsBelow k s (snd (f x s))"
    and k: "k \<le> nextId s"
  shows "parentsBelow k s (snd (forEach f xs s))"
  using k
proof (induction xs arbitrary: s)
  case Nil
  show ?case by (simp add: parentsBelow_refl)
next
  case (Cons x xs)
  obtain r s1 where fx: "f x s = (r, s1)" by (cases "f x s")
  have p1: "parentsBelow k s s1"
    using step [OF Cons.prems, of x] fx by simp
  then have k1: "k \<le> nextId s1"
    using Cons.prems by (simp add: parentsBelow_def)
  show ?case
  proof (cases r)
    case (Inl e)
    then show ?thesis using fx p1 by simp
  next
    case (Inr u)
    then show ?thesis
      using fx p1 Cons.IH [OF k1] parentsBelow_trans by auto
  qed
qed

lemma newElement_parentsBelow:
  assumes "k \<le> nextId s"
  shows "parentsBelow k s (snd (newElement H tag attrs s))
         \<and> (\<forall>el. fst (newElement H tag attrs s) = Inr el \<longrightarrow> k \<le> el)"
proof (cases "validElementName H tag")
  case False
  then show ?thesis
    by (simp add: newElement_def createElement_def andThen_Inl parentsBelow_refl)
next
  case True
  define s1 where "s1 = s\<lparr>store := (store s)(nextId s := newNode ElementNode (toLowerCase tag) [] []),
              nextId := Suc (nextId s)\<rparr>"
  have c: "createElement H tag s = (Inr (nextId s), s1)"
    using True by (simp add: createElement_def s1_def)
  have p1: "parentsBelow k s s1"
    using assms by (simp add: parentsBelow_def s1_def)
  have k1: "k \<le> nextId s1"
    using assms by (simp add: s1_def)
  have loop: "parentsBelow k s1 (snd (forEach (\<lambda>av. setAttribute H (nextId s) (fst av) (snd av)) as s1))" for as
    using k1 by (intro forEach_parentsBelow) (simp_all add: setAttribute_parentsBelow)
  show ?thesis
  proof (cases attrs)
    case None
    then show ?thesis
      using p1 assms by (simp add: newElement_def c andThen_Inr)
  next
    case (Some as)
    obtain r s2 where fe: "forEach (\<lambda>av. setAttribute H (nextId s) (fst av) (snd av)) as s1 = (r, s2)"
      by (cases "forEach (\<lambda>av. setAttribute H (nextId s) (fst av) (snd av)) as s1")
    have "parentsBelow k s s2"
      using loop [of as] fe p1 parentsBelow_trans by auto
    then show ?thesis
      using Some fe assms by (cases r) (simp_all add: newElement_def c andThen_Inr andThen_Inl)
  qed
qed

lemma insertBefore_parentsBelow:
  assumes "k \<le> el"
  shows "parentsBelow k s (snd (insertBefore p el ref s))"
  using assms
  by (simp add: insertBefore_def parentsBelow_refl insertNodes_parentsBelow split: option.splits)

lemma tag_branch_parentsBelow:
  assumes k: "k \<le> nextId s"
    and ins: "\<And>el s1. k \<le> el \<Longrightarrow> parentsBelow k s1 (snd (g el s1))"
  shows "parentsBelow k s (snd (andThen (newElement H tag attrs s) g))"
proof -
  obtain r s1 where ne: "newElement H tag attrs s = (r, s1)"
    by (cases "newElement H tag attrs s")
  have p1: "parentsBelow k s s1" and el: "\<And>el. r = Inr el \<Longrightarrow> k \<le> el"
    using newElement_parentsBelow [OF k, of H tag attrs] ne by auto
  show ?thesis
  proof (cases r)
    case (Inl e)
    then show ?thesis using p1 by (simp add: ne andThen_Inl)
  next
    case (Inr x)
    then show ?thesis
      using p1 ins [OF el [OF Inr], of s1] parentsBelow_trans by (auto simp: ne andThen_Inr)
  qed
qed

lemma before_step_parentsBelow:
  assumes "k \<le> nextId s"
  shows "parentsBelow k s (snd (before_step H inp attrs n s))"
proof (cases inp)
  case (InElement e)
  then show ?thesis by (simp add: before_step_def parentsBelow_refl)
next
  case (InStr str)
  show ?thesis
  proof (cases "isHTMLString inp")
    case True
    then show ?thesis
      using InStr assms by (simp add: before_step_def insertAdjacentHTML_parentsBelow)
  next
    case False
    have "parentsBelow k s (snd (andThen (newElement H str attrs s) (\<lambda>el s1.
                 case parentNode (store s1 n) of
                   None \<Rightarrow> (Inl TypeError, s1)
                 | Some p \<Rightarrow> insertBefore p el (Some n) s1)))"
      using assms
      by (rule tag_branch_parentsBelow)
         (simp add: parentsBelow_refl insertBefore_parentsBelow split: option.splits)
    then show ?thesis
      using InStr False by (simp add: before_step_def)
  qed
qed

lemma after_step_parentsBelow:
  assumes "k \<le> nextId s"
  shows "parentsBelow k s (snd (after_step H inp attrs n s))"
proof (cases inp)
  case (InElement e)
  then show ?thesis by (simp add: after_step_def parentsBelow_refl)
next
  case (InStr str)
  show ?thesis
  proof (cases "isHTMLString inp")
    case True
    then show ?thesis
      using InStr assms by (simp add: after_step_def insertAdjacentHTML_parentsBelow)
  next
    case False
    have "parentsBelow k s (snd (andThen (newElement H str attrs s) (\<lambda>el s1.
                 case parentNode (store s1 n) of
                   None \<Rightarrow> (Inl TypeError, s1)
                 | Some p \<Rightarrow> insertBefore p el (nextSibling n s1) s1)))"
      using assms
      by (rule tag_branch_parentsBelow)
         (simp add: parentsBelow_refl insertBefore_parentsBelow split: option.splits)
    then show ?thesis
      using InStr False by (simp add: after_step_def)
  qed
qed

lemma tag_branch_parentless:
  assumes n: "n < nextId s" and orphan: "parentNode (store s n) = None"
    and g: "\<And>el s1. parentNode (store s1 n) = None \<Longrightarrow> g el s1 = (Inl TypeError, s1)"
  shows "\<exists>e. fst (andThen (newElement H tag attrs s) g) = Inl e"
proof -
  obtain r s1 where ne: "newElement H tag attrs s = (r, s1)"
    by (cases "newElement H tag attrs s")
  have "parentsBelow (nextId s) s s1"
    using newElement_parentsBelow [of "nextId s" s H tag attrs] ne by simp
  then have "parentNode (store s1 n) = None"
    using n orphan by (simp add: parentsBelow_def)
  then show ?thesis
    using g [of s1] by (cases r) (simp_all add: ne andThen_Inl andThen_Inr)
qed

lemma before_step_parentless:
  assumes "n < nextId s" and "parentNode (store s n) = None"
  shows "\<exists>e. fst (before_step H (InStr str) attrs n s) = Inl e"
proof (cases "isHTMLString (InStr str)")
  case True
  then show ?thesis
    using assms by (simp add: before_step_def insertAdjacentHTML_def)
next
  case False
  have "\<exists>e. fst (andThen (newElement H str attrs s) (\<lambda>el s1.
                 case parentNode (store s1 n) of
                   None \<Rightarrow> (Inl TypeError, s1)
                 | Some p \<Rightarrow> insertBefore p el (Some n) s1)) = Inl e"
    using assms by (rule tag_branch_parentless) simp
  then show ?thesis
    using False by (simp add: before_step_def)
qed

lemma after_step_parentless:
  assumes "n < nextId s" and "parentNode (store s n) = None"
  shows "\<exists>e. fst (after_step H (InStr str) attrs n s) = Inl e"
proof (cases "isHTMLString (InStr str)")
  case True
  then show ?thesis
    using assms by (simp add: after_step_def insertAdjacentHTML_def)
next
  case False
  have "\<exists>e. fst (andThen (newElement H str attrs s) (\<lambda>el s1.
                 case parentNode (store s1 n) of
                   None \<Rightarrow> (Inl TypeError, s1)
                 | Some p \<Rightarrow> insertBefore p el (nextSibling n s1) s1)) = Inl e"
    using assms by (rule tag_branch_parentless) simp
  then show ?thesis
    using False by (simp add: after_step_def)
qed

lemma forEach_reaches_parentless:
  assumes frame: "\<And>x s. parentsBelow (nextId s) s (snd (f x s))"
    and raises: "\<And>s. n < nextId s \<Longrightarrow> parentNode (store s n) = None \<Longrightarrow> \<exists>e. fst (f n s) = Inl e"
    and mem: "n \<in> set ns" and n: "n < nextId s" and orphan: "parentNode (store s n) = None"
  shows "(\<exists>e. fst (forEach f ns s) = Inl e) \<and> parentNode (store (snd (forEach f ns s)) n) = None"
  using mem n orphan
proof (induction ns arbitrary: s)
  case Nil
  then show ?case by simp
next
  case (Cons x xs)
  obtain r s1 where fx: "f x s = (r, s1)" by (cases "f x s")
  have p1: "parentsBelow (nextId s) s s1"
    using frame [of s x] fx by simp
  then have n1: "n < nextId s1" and o1: "parentNode (store s1 n) = None"
    using Cons.prems by (simp_all add: parentsBelow_def)
  show ?case
  proof (cases r)
    case (Inl e)
    then show ?thesis using fx o1 by simp
  next
    case (Inr u)
    then have "x \<noteq> n"
      using raises [OF Cons.prems(2,3)] fx by auto
    then have "n \<in> set xs"
      using Cons.prems(1) by simp
    from Cons.IH [OF this n1 o1] show ?thesis
      using fx Inr by simp
  qed
qed

lemma forEach_setAttribute_all_valid:
  assumes "list_all (\<lambda>av. validAttributeName H (fst av)) as"
  shows "fst (forEach (\<lambda>av. setAttribute H el (fst av) (snd av)) as s) = Inr ()"
  using assms by (induction as arbitrary: s) (simp_all add: setAttribute_def)

lemma newElement_valid:
  assumes "validElementName H tag" and "validAttributes H attrs"
  shows "fst (newElement H tag attrs s) = Inr (nextId s)"
proof (cases attrs)
  case None
  then show ?thesis
    using assms(1) by (simp add: newElement_def createElement_def andThen_Inr)
next
  case (Some as)
  define s1 where "s1 = s\<lparr>store := (store s)(nextId s := newNode ElementNode (toLowerCase tag) [] []),
              nextId := Suc (nextId s)\<rparr>"
  obtain r s2 where fe: "forEach (\<lambda>av. setAttribute H (nextId s) (fst av) (snd av)) as s1 = (r, s2)"
    by (cases "forEach (\<lambda>av. setAttribute H (nextId s) (fst av) (snd av)) as s1")
  have "r = Inr ()"
    using forEach_setAttribute_all_valid [of H as "nextId s" s1] assms(2) Some fe
    by (simp add: validAttributes_def)
  then show ?thesis
    using assms(1) Some fe
    by (simp add: newElement_def createElement_def andThen_Inr s1_def [symmetric])
qed

lemma tag_branch_TypeError:
  assumes n: "n < nextId s" and orphan: "parentNode (store s n) = None"
    and ok: "validElementName H tag" "validAttributes H attrs"
    and g: "\<And>el s1. parentNode (store s1 n) = None \<Longrightarrow> g el s1 = (Inl TypeError, s1)"
  shows "andThen (newElement H tag attrs s) g = (Inl TypeError, snd (newElement H tag attrs s))"
proof -
  obtain r s1 where ne: "newElement H tag attrs s = (r, s1)"
    by (cases "newElement H tag attrs s")
  have r: "r = Inr (nextId s)"
    using newElement_valid [OF ok, of s] ne by simp
  have "parentsBelow (nextId s) s s1"
    using newElement_parentsBelow [of "nextId s" s H tag attrs] ne by simp
  then have "parentNode (store s1 n) = None"
    using n orphan by (simp add: parentsBelow_def)
  then show ?thesis
    using g [of s1] by (simp add: ne r andThen_Inr)
qed

text \<open>
  C5, as the code has it. When a collection holds an element that has no parent,
  \<^verbatim>\<open>before\<close> and \<^verbatim>\<open>after\<close> with a string argument raise and do not return the
  collection, and the element still has no parent afterwards. On reaching that element
  the markup branch raises the host's \<^verbatim>\<open>NoModificationAllowedError\<close> and leaves the
  document as it is; the tag-name branch, with names the host accepts, raises
  \<^verbatim>\<open>TypeError\<close> (the member \<^verbatim>\<open>insertBefore\<close> of a null \<^verbatim>\<open>parentNode\<close>) in the state
  in which the new element has been created and not inserted.
\<close>

theorem before_after_raise_on_parentless:
  assumes "n \<in> set (nodes q)" and "n < nextId s" and "parentNode (store s n) = None"
  shows "(\<exists>e. fst (before H q (InStr str) attrs s) = Inl e)
         \<and> (\<exists>e. fst (after H q (InStr str) attrs s) = Inl e)
         \<and> parentNode (store (snd (before H q (InStr str) attrs s)) n) = None
         \<and> parentNode (store (snd (after H q (InStr str) attrs s)) n) = None
         \<and> (isHTMLString (InStr str) \<longrightarrow>
              before_step H (InStr str) attrs n s = (Inl NoModificationAllowedError, s)
              \<and> after_step H (InStr str) attrs n s = (Inl NoModificationAllowedError, s))
         \<and> (\<not> isHTMLString (InStr str) \<and> validElementName H str \<and> validAttributes H attrs \<longrightarrow>
              fst (newElement H str attrs s) = Inr (nextId s)
              \<and> before_step H (InStr str) attrs n s = (Inl TypeError, snd (newElement H str attrs s))
              \<and> after_step H (InStr str) attrs n s = (Inl TypeError, snd (newElement H str attrs s)))"
proof -
  have b: "(\<exists>e. fst (forEach (before_step H (InStr str) attrs) (nodes q) s) = Inl e)
           \<and> parentNode (store (snd (forEach (before_step H (InStr str) attrs) (nodes q) s)) n) = None"
    using assms
    by (intro forEach_reaches_parentless)
       (simp_all add: before_step_parentsBelow before_step_parentless)
  have a: "(\<exists>e. fst (forEach (after_step H (InStr str) attrs) (nodes q) s) = Inl e)
           \<and> parentNode (store (snd (forEach (after_step H (InStr str) attrs) (nodes q) s)) n) = None"
    using assms
    by (intro forEach_reaches_parentless)
       (simp_all add: after_step_parentsBelow after_step_parentless)
  have m: "isHTMLString (InStr str) \<longrightarrow>
              before_step H (InStr str) attrs n s = (Inl NoModificationAllowedError, s)
              \<and> after_step H (InStr str) attrs n s = (Inl NoModificationAllowedError, s)"
    using assms(3) by (simp add: before_step_def after_step_def insertAdjacentHTML_def)
  have t: "fst (newElement H str attrs s) = Inr (nextId s)
              \<and> before_step H (InStr str) attrs n s = (Inl TypeError, snd (newElement H str attrs s))
              \<and> after_step H (InStr str) attrs n s = (Inl TypeError, snd (newElement H str attrs s))"
    if ok: "\<not> isHTMLString (InStr str) \<and> validElementName H str \<and> validAttributes H attrs"
  proof -
    from ok have ok1: "validElementName H str" and ok2: "validAttributes H attrs"
      by simp_all
    have "andThen (newElement H str attrs s) (\<lambda>el s1.
                 case parentNode (store s1 n) of
                   None \<Rightarrow> (Inl TypeError, s1)
                 | Some p \<Rightarrow> insertBefore p el (Some n) s1)
            = (Inl TypeError, snd (newElement H str attrs s))"
      by (rule tag_branch_TypeError [OF assms(2,3) ok1 ok2]) simp
    moreover have "andThen (newElement H str attrs s) (\<lambda>el s1.
                 case parentNode (store s1 n) of
                   None \<Rightarrow> (Inl TypeError, s1)
                 | Some p \<Rightarrow> insertBefore p el (nextSibling n s1) s1)
            = (Inl TypeError, snd (newElement H str attrs s))"
      by (rule tag_branch_TypeError [OF assms(2,3) ok1 ok2]) simp
    ultimately show ?thesis
      using ok newElement_valid [OF ok1 ok2, of s] by (simp add: before_step_def after_step_def)
  qed
  from a b m t show ?thesis
    by (auto simp: before_def after_def fst_returnThis snd_returnThis)
qed

theorem before_after_parentless_witness:
  "parentNode (store detachedPage 0) = None
   \<and> (\<exists>e. fst (before sampleHost \<lparr>nodes = [0]\<rparr> (InStr ''<span>x</span>'') None detachedPage) = Inl e)
   \<and> (\<exists>e. fst (after sampleHost \<lparr>nodes = [0]\<rparr> (InStr ''span'') None detachedPage) = Inl e)
   \<and> before_step sampleHost (InStr ''<span>x</span>'') None 0 detachedPage
       = (Inl NoModificationAllowedError, detachedPage)
   \<and> after_step sampleHost (InStr ''span'') None 0 detachedPage
       = (Inl TypeError, snd (newElement sampleHost ''span'' None detachedPage))"
proof -
  have h: "0 \<in> set (nodes \<lparr>nodes = [0]\<rparr>)" "0 < nextId detachedPage"
    "parentNode (store detachedPage 0) = None"
    by code_simp+
  have i: "isHTMLString (InStr ''<span>x</span>'')" "\<not> isHTMLString (InStr ''span'')"
    "validElementName sampleHost ''span''" "validAttributes sampleHost None"
    by code_simp+
  show ?thesis
    using before_after_raise_on_parentless [OF h, of sampleHost "''<span>x</span>''" None]
      before_after_raise_on_parentless [OF h, of sampleHost "''span''" None] h(3) i
    by blast
qed

text \<open>
  The claim as stated fails: on the \<^verbatim>\<open>div\<close> of \<open>detachedPage\<close>, which has no parent,
  \<^verbatim>\<open>before\<close> and \<^verbatim>\<open>after\<close> raise in the markup branch and in the tag-name branch, and
  return no collection.
\<close>

theorem before_after_parentless_counterexample:
  "fst (before sampleHost \<lparr>nodes = [0]\<rparr> (InStr ''<span>x</span>'') None detachedPage)
     = Inl NoModificationAllowedError
   \<and> fst (after sampleHost \<lparr>nodes = [0]\<rparr> (InStr ''<span>x</span>'') None detachedPage)
     = Inl NoModificationAllowedError
   \<and> fst (before sampleHost \<lparr>nodes = [0]\<rparr> (InStr ''span'') None detachedPage) = Inl TypeError
   \<and> fst (after sampleHost \<lparr>nodes = [0]\<rparr> (InStr ''span'') None detachedPage) = Inl TypeError"
  by code_simp

section \<open>Appending to every element\<close>











end
